theory Spec2Isabelle
  imports Complex_Main "HOL-Library.Sublist"
begin

section \<open>Python strings\<close>

text \<open>
  A Python \<^verbatim>\<open>str\<close> is a sequence of Unicode code points, and \<^verbatim>\<open>len\<close> counts
  code points: texts and queries are lists of natural numbers. Identifiers, tags and
  messages, which are ASCII, stay Isabelle strings; \<open>ascii\<close> embeds them.

  The character classes and the case mapping of the Python runtime are given for Basic
  Latin and for the Cyrillic letters U+0400 to U+045F, the alphabets of the three
  supported languages; every other code point is modelled as a caseless symbol that is
  neither a word character nor white space.
\<close>

type_synonym ustring = "nat list"

definition ascii :: "string \<Rightarrow> ustring" where
  "ascii s = map of_char s"

definition is_digit :: "nat \<Rightarrow> bool" where
  "is_digit c \<longleftrightarrow> 48 \<le> c \<and> c \<le> 57"

definition is_upper :: "nat \<Rightarrow> bool" where
  "is_upper c \<longleftrightarrow> (65 \<le> c \<and> c \<le> 90) \<or> (1024 \<le> c \<and> c \<le> 1071)"

definition is_lower :: "nat \<Rightarrow> bool" where
  "is_lower c \<longleftrightarrow> (97 \<le> c \<and> c \<le> 122) \<or> (1072 \<le> c \<and> c \<le> 1119)"

text \<open>\<^verbatim>\<open>\\w\<close>: letters, digits and the underscore.\<close>

definition is_word :: "nat \<Rightarrow> bool" where
  "is_word c \<longleftrightarrow> is_upper c \<or> is_lower c \<or> is_digit c \<or> c = 95"

text \<open>\<^verbatim>\<open>\\s\<close> and \<^verbatim>\<open>str.isspace\<close>: tab to carriage return, the four separators
  U+001C to U+001F, and the space.\<close>

definition is_space :: "nat \<Rightarrow> bool" where
  "is_space c \<longleftrightarrow> (9 \<le> c \<and> c \<le> 13) \<or> (28 \<le> c \<and> c \<le> 32)"

definition lower_char :: "nat \<Rightarrow> nat" where
  "lower_char c =
     (if 65 \<le> c \<and> c \<le> 90 then c + 32
      else if 1040 \<le> c \<and> c \<le> 1071 then c + 32
      else if 1024 \<le> c \<and> c \<le> 1039 then c + 80
      else c)"

text \<open>\<^verbatim>\<open>str.lower()\<close>\<close>

definition lower :: "ustring \<Rightarrow> ustring" where
  "lower s = map lower_char s"

text \<open>\<^verbatim>\<open>str.isupper()\<close>: at least one cased character and no lower-case one.\<close>

definition isupper :: "ustring \<Rightarrow> bool" where
  "isupper s \<longleftrightarrow> list_ex is_upper s \<and> \<not> list_ex is_lower s"

text \<open>\<^verbatim>\<open>str.isdigit()\<close>: non-empty and digits only.\<close>

definition isdigit :: "ustring \<Rightarrow> bool" where
  "isdigit s \<longleftrightarrow> s \<noteq> [] \<and> list_all is_digit s"

text \<open>\<^verbatim>\<open>needle in haystack\<close> on strings: some position of the haystack starts with the
  needle.\<close>

fun str_contains :: "ustring \<Rightarrow> ustring \<Rightarrow> bool" where
  "str_contains needle [] = (needle = [])"
| "str_contains needle (c # s) = (prefix needle (c # s) \<or> str_contains needle s)"

text \<open>\<^verbatim>\<open>str.split()\<close> without arguments: the maximal runs of characters that are not
  white space. The accumulator \<open>cur\<close> holds the run being read, reversed.\<close>

fun split_loop :: "ustring \<Rightarrow> ustring \<Rightarrow> ustring list" where
  "split_loop cur [] = (if cur = [] then [] else [rev cur])"
| "split_loop cur (c # s) =
     (if is_space c then (if cur = [] then split_loop [] s else rev cur # split_loop [] s)
      else split_loop (c # cur) s)"

definition split :: "ustring \<Rightarrow> ustring list" where
  "split s = split_loop [] s"


subsection \<open>The regular expressions the code uses\<close>

text \<open>
  The patterns of the analyzer are sequences of atoms: the word boundary \<^verbatim>\<open>\\b\<close>, a
  character set \<^verbatim>\<open>[Aa]\<close>, a literal, an optional character \<^verbatim>\<open>c?\<close>, a class
  (\<^verbatim>\<open>[A-Z]\<close>) and a class repeated one or more times (\<^verbatim>\<open>\\s+\<close>, \<^verbatim>\<open>\\d+\<close>, \<^verbatim>\<open>[a-z]+\<close>).
  \<open>rx_match\<close> says whether the pattern matches at the start of the string, given the
  character before it (for \<^verbatim>\<open>\\b\<close>); \<^verbatim>\<open>re.search\<close> tries every start position.
\<close>

datatype char_class = Space | Digit | LowerAZ | UpperAZ

fun in_class :: "char_class \<Rightarrow> nat \<Rightarrow> bool" where
  "in_class Space c = is_space c"
| "in_class Digit c = is_digit c"
| "in_class LowerAZ c = (97 \<le> c \<and> c \<le> 122)"
| "in_class UpperAZ c = (65 \<le> c \<and> c \<le> 90)"

datatype atom =
    Boundary
  | OneOf ustring
  | Lit ustring
  | Opt nat
  | One char_class
  | Plus char_class

definition is_word_opt :: "nat option \<Rightarrow> bool" where
  "is_word_opt c = (case c of None \<Rightarrow> False | Some x \<Rightarrow> is_word x)"

text \<open>\<^verbatim>\<open>\\b\<close> holds between two positions of which exactly one is a word character; the
  ends of the string count as non-word.\<close>

definition boundary :: "nat option \<Rightarrow> nat option \<Rightarrow> bool" where
  "boundary l r \<longleftrightarrow> is_word_opt l \<noteq> is_word_opt r"

definition first_opt :: "'a list \<Rightarrow> 'a option" where
  "first_opt s = (case s of [] \<Rightarrow> None | c # _ \<Rightarrow> Some c)"

function rx_match :: "atom list \<Rightarrow> nat option \<Rightarrow> ustring \<Rightarrow> bool" where
  "rx_match [] prev s = True"
| "rx_match (Boundary # rest) prev s = (boundary prev (first_opt s) \<and> rx_match rest prev s)"
| "rx_match (OneOf cs # rest) prev [] = False"
| "rx_match (OneOf cs # rest) prev (c # s) = (c \<in> set cs \<and> rx_match rest (Some c) s)"
| "rx_match (Lit w # rest) prev s =
     (prefix w s \<and> rx_match rest (if w = [] then prev else Some (last w)) (drop (length w) s))"
| "rx_match (Opt x # rest) prev [] = rx_match rest prev []"
| "rx_match (Opt x # rest) prev (c # s) =
     ((c = x \<and> rx_match rest (Some c) s) \<or> rx_match rest prev (c # s))"
| "rx_match (One P # rest) prev [] = False"
| "rx_match (One P # rest) prev (c # s) = (in_class P c \<and> rx_match rest (Some c) s)"
| "rx_match (Plus P # rest) prev [] = False"
| "rx_match (Plus P # rest) prev (c # s) =
     (in_class P c \<and> (rx_match (Plus P # rest) (Some c) s \<or> rx_match rest (Some c) s))"
  by pat_completeness auto
termination
  by (relation "measures [\<lambda>(rest, prev, s). length s, \<lambda>(rest, prev, s). length rest]") auto

fun rx_search_from :: "atom list \<Rightarrow> nat option \<Rightarrow> ustring \<Rightarrow> bool" where
  "rx_search_from p prev [] = rx_match p prev []"
| "rx_search_from p prev (c # s) = (rx_match p prev (c # s) \<or> rx_search_from p (Some c) s)"

text \<open>\<^verbatim>\<open>bool(re.search(pattern, s))\<close>\<close>

definition rx_search :: "atom list \<Rightarrow> ustring \<Rightarrow> bool" where
  "rx_search p s = rx_search_from p None s"

text \<open>\<^verbatim>\<open>bool(re.match(pattern, s))\<close>: at the start only.\<close>

definition rx_match_start :: "atom list \<Rightarrow> ustring \<Rightarrow> bool" where
  "rx_match_start p s = rx_match p None s"

section \<open>Shared data: errors and ranked result items\<close>

text \<open>
  Exceptions of the retrieval core are values. An exception class that wraps the
  message of another one (\<^verbatim>\<open>raise RetrievalError(f"Retrieval failed: {e}")\<close>)
  carries the wrapped error as its argument.
\<close>

datatype error =
    IndexError
  | ZeroDivisionError
  | ValueError
  | ExternalError
  | MultipleResultsFound
  | BM25IndexNotFoundError
  | Message string
  | BM25Error error
  | BM25BuildError error
  | GraphNotFoundError
  | InvalidRetrievalModeError
  | RetrievalError error
  | RouterError error

text \<open>
  The retrievers exchange dictionaries with the keys \<^verbatim>\<open>atomic_unit_id\<close>,
  \<^verbatim>\<open>score\<close>, \<^verbatim>\<open>source\<close>, \<^verbatim>\<open>metadata\<close> and, for graph neighbours,
  \<^verbatim>\<open>graph_distance\<close>. Identifiers and source tags are ASCII strings; Python floats
  are modelled as real numbers; the metadata payload is left polymorphic.
\<close>

record 'm result_item =
  atomic_unit_id :: string
  score :: real
  source :: string
  metadata :: 'm
  graph_distance :: "nat option"

section \<open>Reciprocal rank fusion (retrieval/fusion.py)\<close>

text \<open>
  \<^verbatim>\<open>rrf_scores\<close> is a \<^verbatim>\<open>defaultdict(float)\<close>: a dictionary that keeps its keys in
  insertion order. It is an association list here; \<^verbatim>\<open>rrf_scores[k] += v\<close> updates
  the entry in place or appends \<open>(k, 0 + v)\<close>.
\<close>

fun add_score :: "(string \<times> real) list \<Rightarrow> string \<Rightarrow> real \<Rightarrow> (string \<times> real) list" where
  "add_score [] k v = [(k, 0 + v)]"
| "add_score ((k', s) # rest) k v =
     (if k' = k then (k', s + v) # rest else (k', s) # add_score rest k v)"

text \<open>\<^verbatim>\<open>if item_id not in item_data: item_data[item_id] = item\<close>\<close>

definition store_first :: "(string \<rightharpoonup> 'a) \<Rightarrow> string \<Rightarrow> 'a \<Rightarrow> (string \<rightharpoonup> 'a)" where
  "store_first d k x = (case d k of None \<Rightarrow> d(k \<mapsto> x) | Some _ \<Rightarrow> d)"

text \<open>
  The inner loop \<^verbatim>\<open>for rank, item in enumerate(ranked_list, start=1)\<close>; the state is
  the pair of dictionaries.
\<close>

fun fuse_list ::
  "nat \<Rightarrow> real \<Rightarrow> nat \<Rightarrow> 'm result_item list \<Rightarrow>
   (string \<times> real) list \<times> (string \<rightharpoonup> 'm result_item) \<Rightarrow>
   (string \<times> real) list \<times> (string \<rightharpoonup> 'm result_item)" where
  "fuse_list k weight rank [] st = st"
| "fuse_list k weight rank (item # items) (rrf_scores, item_data) =
     (let item_id = atomic_unit_id item;
          rrf_score = weight / (real k + real rank)
      in fuse_list k weight (Suc rank) items
           (add_score rrf_scores item_id rrf_score, store_first item_data item_id item))"

text \<open>
  The outer loop \<^verbatim>\<open>for list_idx, ranked_list in enumerate(ranked_lists)\<close>. Reading
  \<^verbatim>\<open>weights[list_idx]\<close> past the end of \<^verbatim>\<open>weights\<close> raises IndexError.
\<close>

fun fuse_lists ::
  "nat \<Rightarrow> real list \<Rightarrow> nat \<Rightarrow> 'm result_item list list \<Rightarrow>
   (string \<times> real) list \<times> (string \<rightharpoonup> 'm result_item) \<Rightarrow>
   error + (string \<times> real) list \<times> (string \<rightharpoonup> 'm result_item)" where
  "fuse_lists k weights list_idx [] st = Inr st"
| "fuse_lists k weights list_idx (ranked_list # rest) st =
     (if list_idx < length weights
      then fuse_lists k weights (Suc list_idx) rest
             (fuse_list k (weights ! list_idx) 1 ranked_list st)
      else Inl IndexError)"

text \<open>
  \<^verbatim>\<open>sorted(xs, key=..., reverse=True)\<close> is stable: elements with equal keys keep
  their original order. That is a stable ascending sort on the negated key.
\<close>

definition sorted_desc :: "('a \<Rightarrow> real) \<Rightarrow> 'a list \<Rightarrow> 'a list" where
  "sorted_desc key xs = sort_key (\<lambda>x. - key x) xs"

text \<open>
  The result loop: \<^verbatim>\<open>item_data[item_id].copy()\<close> with the fused score and the
  source tag \<^verbatim>\<open>"fusion"\<close>. Every key of \<^verbatim>\<open>rrf_scores\<close> is a key of
  \<^verbatim>\<open>item_data\<close>, so the lookup does not raise; entries without data are skipped in
  the model.
\<close>

definition fused_results ::
  "(string \<times> real) list \<Rightarrow> (string \<rightharpoonup> 'm result_item) \<Rightarrow> 'm result_item list" where
  "fused_results ranked item_data =
     List.map_filter
       (\<lambda>(item_id, sc). map_option (\<lambda>it. it\<lparr>score := sc, source := ''fusion''\<rparr>) (item_data item_id))
       ranked"

definition fuse ::
  "nat \<Rightarrow> 'm result_item list list \<Rightarrow> real list option \<Rightarrow> error + 'm result_item list" where
  "fuse k ranked_lists weights_opt =
     (if ranked_lists = [] then Inr []
      else
        let weights = (case weights_opt of None \<Rightarrow> replicate (length ranked_lists) 1 | Some ws \<Rightarrow> ws);
            weight_sum = sum_list weights
        in if weights \<noteq> [] \<and> weight_sum = 0 then Inl ZeroDivisionError
           else
             case fuse_lists k (map (\<lambda>w. w / weight_sum) weights) 0 ranked_lists ([], Map.empty) of
               Inl e \<Rightarrow> Inl e
             | Inr (rrf_scores, item_data) \<Rightarrow>
                 Inr (fused_results (sorted_desc snd rrf_scores) item_data))"

text \<open>The engine's instance: \<^verbatim>\<open>ReciprocalRankFusion()\<close> has \<open>k = 60\<close>.\<close>

definition rrf_k :: nat where
  "rrf_k = 60"

section \<open>Query analyzer (router/query_analyzer.py, schemas/router.py)\<close>

datatype QueryType = EXACT_REFERENCE | KEYWORD_SEARCH | SEMANTIC_QUESTION | HYBRID_QUERY | UNCLEAR

datatype QueryLanguage = UZBEK | RUSSIAN | ENGLISH | MIXED | UNKNOWN

record query_characteristics =
  query_type :: QueryType
  language :: QueryLanguage
  has_numbers :: bool
  has_exact_phrases :: bool
  question_words_present :: bool
  word_count :: nat
  contains_technical_terms :: bool
  confidence :: real

text \<open>
  \<^verbatim>\<open>self.question_words\<close>, a dictionary from language code to word list, in
  insertion order. The Russian words are
  \<^verbatim>\<open>chto, kto, gde, kogda, pochemu, kak, kakoy, chey\<close> in Cyrillic letters.
\<close>

definition question_words :: "(string \<times> ustring list) list" where
  "question_words =
     [(''en'', map ascii [''what'', ''who'', ''where'', ''when'', ''why'', ''how'', ''which'', ''whose'']),
      (''ru'', [[1095, 1090, 1086], [1082, 1090, 1086], [1075, 1076, 1077],
                [1082, 1086, 1075, 1076, 1072], [1087, 1086, 1095, 1077, 1084, 1091],
                [1082, 1072, 1082], [1082, 1072, 1082, 1086, 1081], [1095, 1077, 1081]]),
      (''uz'', map ascii [''nima'', ''kim'', ''qayer'', ''qachon'', ''nega'', ''qanday'', ''qaysi''])]"

text \<open>
  \<^verbatim>\<open>self.reference_patterns\<close>: \<^verbatim>\<open>\b[Aa]rticle\s+\d+\<close>, the same for
  \<^verbatim>\<open>[Ss]ection\<close>, \<^verbatim>\<open>[Cc]lause\<close> and \<^verbatim>\<open>[Mm]odda\<close>, then the Cyrillic
  \<^verbatim>\<open>\b[Bb]andl?\s+\d+\<close> and \<^verbatim>\<open>\b[Ss]tat'ya\s+\d+\<close>.
\<close>

definition reference_patterns :: "atom list list" where
  "reference_patterns =
     [[Boundary, OneOf (ascii ''Aa''), Lit (ascii ''rticle''), Plus Space, Plus Digit],
      [Boundary, OneOf (ascii ''Ss''), Lit (ascii ''ection''), Plus Space, Plus Digit],
      [Boundary, OneOf (ascii ''Cc''), Lit (ascii ''lause''), Plus Space, Plus Digit],
      [Boundary, OneOf (ascii ''Mm''), Lit (ascii ''odda''), Plus Space, Plus Digit],
      [Boundary, OneOf [1041, 1073], Lit [1072, 1085, 1076], Opt 1083, Plus Space, Plus Digit],
      [Boundary, OneOf [1057, 1089], Lit [1090, 1072, 1090, 1100, 1103], Plus Space, Plus Digit]]"

text \<open>
  \<^verbatim>\<open>langdetect.detect\<close> is an external, statistical library: it is a parameter that
  returns a language code, or \<open>None\<close> where it raises \<^verbatim>\<open>LangDetectException\<close>.
\<close>

definition detect_language :: "(ustring \<Rightarrow> string option) \<Rightarrow> ustring \<Rightarrow> QueryLanguage" where
  "detect_language detect query =
     (case detect query of
        None \<Rightarrow> UNKNOWN
      | Some lang_code \<Rightarrow>
          if lang_code = ''uz'' then UZBEK
          else if lang_code = ''ru'' then RUSSIAN
          else if lang_code = ''en'' then ENGLISH
          else UNKNOWN)"

text \<open>The inner loop \<^verbatim>\<open>for word in words: if word in query_lower: return True\<close>.\<close>

fun any_word_in :: "ustring list \<Rightarrow> ustring \<Rightarrow> bool" where
  "any_word_in [] query_lower = False"
| "any_word_in (word # words) query_lower =
     (if str_contains word query_lower then True else any_word_in words query_lower)"

text \<open>The outer loop \<^verbatim>\<open>for lang_code, words in self.question_words.items()\<close>.\<close>

fun any_language_word_in :: "(string \<times> ustring list) list \<Rightarrow> ustring \<Rightarrow> bool" where
  "any_language_word_in [] query_lower = False"
| "any_language_word_in ((lang_code, words) # rest) query_lower =
     (if any_word_in words query_lower then True else any_language_word_in rest query_lower)"

text \<open>\<^verbatim>\<open>_has_question_words\<close>; the \<open>language\<close> argument is not used by the source.\<close>

definition has_question_words :: "ustring \<Rightarrow> QueryLanguage \<Rightarrow> bool" where
  "has_question_words query lang =
     (let query_lower = lower query
      in if any_language_word_in question_words query_lower then True
         else if 63 \<in> set query then True
         else False)"

fun has_references_loop :: "atom list list \<Rightarrow> ustring \<Rightarrow> bool" where
  "has_references_loop [] query = False"
| "has_references_loop (pattern # rest) query =
     (if rx_search pattern query then True else has_references_loop rest query)"

definition has_references :: "ustring \<Rightarrow> bool" where
  "has_references query = has_references_loop reference_patterns query"

text \<open>The loop of \<^verbatim>\<open>_has_technical_terms\<close> over \<^verbatim>\<open>query.split()\<close>: CamelCase
  (\<^verbatim>\<open>^[a-z]+[A-Z]\<close>), all capitals and longer than one character, or an underscore or
  a hyphen inside.\<close>

fun technical_loop :: "ustring list \<Rightarrow> bool" where
  "technical_loop [] = False"
| "technical_loop (word # words) =
     (if rx_match_start [Plus LowerAZ, One UpperAZ] word then True
      else if isupper word \<and> length word > 1 then True
      else if 95 \<in> set word \<or> 45 \<in> set word then True
      else technical_loop words)"

definition has_technical_terms :: "ustring \<Rightarrow> bool" where
  "has_technical_terms query = technical_loop (split query)"

definition classify_query_type ::
  "ustring \<Rightarrow> bool \<Rightarrow> bool \<Rightarrow> bool \<Rightarrow> nat \<Rightarrow> QueryType \<times> real" where
  "classify_query_type query has_refs has_qwords has_nums wc =
     (if has_refs then (EXACT_REFERENCE, 0.9)
      else if has_qwords \<and> wc > 3 then (SEMANTIC_QUESTION, 0.85)
      else if wc \<le> 3 \<and> (has_nums \<or> isupper query) then (KEYWORD_SEARCH, 0.75)
      else if wc > 3 then (HYBRID_QUERY, 0.6)
      else (UNCLEAR, 0.3))"

text \<open>
  \<^verbatim>\<open>analyze\<close>. With the language detector reduced to a code or
  \<^verbatim>\<open>LangDetectException\<close>, which \<^verbatim>\<open>_detect_language\<close> catches, no step of the
  \<^verbatim>\<open>try\<close> block raises, and the fallback of the \<^verbatim>\<open>except\<close> branch is not reached.
\<close>

definition analyze :: "(ustring \<Rightarrow> string option) \<Rightarrow> ustring \<Rightarrow> query_characteristics" where
  "analyze detect query =
     (let wc = length (split query);
          has_nums = rx_search [Plus Digit] query;
          has_phrases = (34 \<in> set query \<or> 39 \<in> set query);
          lang = detect_language detect query;
          has_qwords = has_question_words query lang;
          has_refs = has_references query;
          technical = has_technical_terms query;
          (qtype, conf) = classify_query_type query has_refs has_qwords has_nums wc
      in \<lparr>query_type = qtype, language = lang, has_numbers = has_nums,
          has_exact_phrases = has_phrases, question_words_present = has_qwords,
          word_count = wc, contains_technical_terms = technical, confidence = conf\<rparr>)"

section \<open>Routing strategy (router/routing_strategy.py)\<close>

record routing_decision =
  selected_mode :: string
  top_k :: int
  score_threshold :: real
  expand_with_neighbors :: bool
  neighbor_hops :: int
  reasoning :: string
  query_characteristics :: query_characteristics
  chat_strictness :: string
  chat_purpose :: string

definition handle_exact_reference ::
  "query_characteristics \<Rightarrow> string \<Rightarrow> string \<Rightarrow> routing_decision" where
  "handle_exact_reference query_chars strictness purpose =
     \<lparr>selected_mode = ''graph_enhanced'', top_k = 10, score_threshold = 0.2,
      expand_with_neighbors = True, neighbor_hops = 2,
      reasoning = ''Detected exact reference (article/section number). '' @
                  ''Using graph-enhanced mode to find the reference and surrounding context.'',
      query_characteristics = query_chars, chat_strictness = strictness, chat_purpose = purpose\<rparr>"

definition handle_keyword_search ::
  "query_characteristics \<Rightarrow> string \<Rightarrow> string \<Rightarrow> routing_decision" where
  "handle_keyword_search query_chars strictness purpose =
     \<lparr>selected_mode = ''sparse_only'', top_k = 15, score_threshold = 0.0,
      expand_with_neighbors = False, neighbor_hops = 0,
      reasoning = ''Detected keyword search (short query with technical terms). '' @
                  ''Using BM25 sparse search for exact keyword matching.'',
      query_characteristics = query_chars, chat_strictness = strictness, chat_purpose = purpose\<rparr>"

definition handle_semantic_question ::
  "query_characteristics \<Rightarrow> string \<Rightarrow> string \<Rightarrow> routing_decision" where
  "handle_semantic_question query_chars strictness purpose =
     (let (k, threshold) = (if strictness = ''strict_docs_only'' then (8, 0.4) else (12, 0.3))
      in \<lparr>selected_mode = ''hybrid'', top_k = k, score_threshold = threshold,
          expand_with_neighbors = True, neighbor_hops = 1,
          reasoning = ''Detected semantic question. '' @
                      ''Using hybrid mode (dense + sparse) for best semantic understanding.'',
          query_characteristics = query_chars, chat_strictness = strictness, chat_purpose = purpose\<rparr>)"

definition handle_hybrid_query ::
  "query_characteristics \<Rightarrow> string \<Rightarrow> string \<Rightarrow> routing_decision" where
  "handle_hybrid_query query_chars strictness purpose =
     \<lparr>selected_mode = ''hybrid'', top_k = 10, score_threshold = 0.35,
      expand_with_neighbors = False, neighbor_hops = 0,
      reasoning = ''General query with mixed characteristics. '' @
                  ''Using hybrid mode (dense + sparse fusion) for balanced results.'',
      query_characteristics = query_chars, chat_strictness = strictness, chat_purpose = purpose\<rparr>"

definition handle_unclear ::
  "query_characteristics \<Rightarrow> string \<Rightarrow> string \<Rightarrow> routing_decision" where
  "handle_unclear query_chars strictness purpose =
     \<lparr>selected_mode = ''hybrid'', top_k = 10, score_threshold = 0.3,
      expand_with_neighbors = False, neighbor_hops = 0,
      reasoning = ''Query type unclear. '' @ ''Using hybrid mode as default safe strategy.'',
      query_characteristics = query_chars, chat_strictness = strictness, chat_purpose = purpose\<rparr>"

text \<open>\<^verbatim>\<open>chat_config.get(key, default)\<close>\<close>

definition get_or :: "('k \<rightharpoonup> 'v) \<Rightarrow> 'k \<Rightarrow> 'v \<Rightarrow> 'v" where
  "get_or d k dflt = (case d k of None \<Rightarrow> dflt | Some v \<Rightarrow> v)"

definition decide :: "query_characteristics \<Rightarrow> (string \<rightharpoonup> string) \<Rightarrow> routing_decision" where
  "decide query_chars chat_config =
     (let strictness = get_or chat_config ''strictness'' ''strict_docs_only'';
          purpose = get_or chat_config ''purpose'' ''general''
      in case query_type query_chars of
           EXACT_REFERENCE \<Rightarrow> handle_exact_reference query_chars strictness purpose
         | KEYWORD_SEARCH \<Rightarrow> handle_keyword_search query_chars strictness purpose
         | SEMANTIC_QUESTION \<Rightarrow> handle_semantic_question query_chars strictness purpose
         | HYBRID_QUERY \<Rightarrow> handle_hybrid_query query_chars strictness purpose
         | UNCLEAR \<Rightarrow> handle_unclear query_chars strictness purpose)"

section \<open>Adaptive router (router/adaptive_router.py)\<close>

record router_request =
  query :: ustring
  chat_id :: string
  force_mode :: "string option"
  force_top_k :: "int option"

text \<open>
  \<^verbatim>\<open>_load_chat_config\<close> parses the chat id and reads the chat row of the tenant from
  the database. The outcome of that read is a parameter: an error, no row, or the row's
  strictness and purpose. A missing row raises \<^verbatim>\<open>ValueError\<close>.
\<close>

record chat_row =
  strictness :: string
  purpose :: string

definition load_chat_config :: "error + chat_row option \<Rightarrow> error + (string \<rightharpoonup> string)" where
  "load_chat_config db_chat =
     (case db_chat of
        Inl e \<Rightarrow> Inl e
      | Inr None \<Rightarrow> Inl ValueError
      | Inr (Some chat) \<Rightarrow>
          Inr [''strictness'' \<mapsto> strictness chat, ''purpose'' \<mapsto> purpose chat])"

text \<open>
  \<^verbatim>\<open>route\<close>. The override tests are Python truth tests: \<^verbatim>\<open>if request.force_mode\<close>
  holds for a non-empty string, \<^verbatim>\<open>if request.force_top_k\<close> for a non-zero integer.
  Any exception is re-raised as \<^verbatim>\<open>RouterError\<close>.
\<close>

definition truthy_str :: "string option \<Rightarrow> bool" where
  "truthy_str v = (case v of None \<Rightarrow> False | Some x \<Rightarrow> x \<noteq> [])"

definition truthy_int :: "int option \<Rightarrow> bool" where
  "truthy_int v = (case v of None \<Rightarrow> False | Some x \<Rightarrow> x \<noteq> 0)"

definition route ::
  "(ustring \<Rightarrow> string option) \<Rightarrow> error + chat_row option \<Rightarrow> router_request \<Rightarrow>
   error + routing_decision" where
  "route detect db_chat request =
     (let query_chars = analyze detect (query request)
      in case load_chat_config db_chat of
           Inl e \<Rightarrow> Inl (RouterError e)
         | Inr chat_config \<Rightarrow>
             let decision = decide query_chars chat_config;
                 decision = (if truthy_str (force_mode request)
                             then decision\<lparr>selected_mode := the (force_mode request),
                                           reasoning := reasoning decision @ '' (Manually overridden)''\<rparr>
                             else decision);
                 decision = (if truthy_int (force_top_k request)
                             then decision\<lparr>top_k := the (force_top_k request)\<rparr>
                             else decision)
             in Inr decision)"


section \<open>Atomic units and the document graph (graph/node.py, graph/graph_builder.py)\<close>

text \<open>
  An \<^verbatim>\<open>AtomicUnit\<close> row, with the columns the retrieval core reads. The primary key
  is \<open>u_id\<close>.
\<close>

record atomic_unit =
  u_id :: string
  u_tenant_id :: string
  u_chat_id :: string
  u_document_id :: string
  u_unit_type :: string
  u_text :: ustring
  u_sequence :: int
  u_level :: int
  u_page_number :: "int option"
  u_section_title :: "ustring option"

datatype json = JBool bool | JInt int | JStr ustring

record graph_node =
  node_id :: string
  node_type :: string
  node_text :: ustring
  level :: int
  sequence :: int
  node_document_id :: string
  node_page_number :: "int option"
  node_section_title :: "ustring option"

record graph_edge =
  source_id :: string
  target_id :: string
  edge_type :: string
  edge_metadata :: "(string \<times> json) list"

text \<open>The constants of \<^verbatim>\<open>EdgeType\<close>.\<close>

definition CONTAINS :: string where "CONTAINS = ''CONTAINS''"
definition NEXT :: string where "NEXT = ''NEXT''"
definition REFERS_TO :: string where "REFERS_TO = ''REFERS_TO''"
definition PART_OF :: string where "PART_OF = ''PART_OF''"

text \<open>
  \<^verbatim>\<open>_create_hierarchy_edges\<close>. The parent stack holds \<open>(level, unit_id)\<close> pairs with
  its top at the head of the list.
  \<^verbatim>\<open>while parent_stack and parent_stack[-1][0] >= unit.level: parent_stack.pop()\<close>
\<close>

fun pop_parents :: "(int \<times> string) list \<Rightarrow> int \<Rightarrow> (int \<times> string) list" where
  "pop_parents [] lvl = []"
| "pop_parents ((l, i) # parent_stack) lvl =
     (if l \<ge> lvl then pop_parents parent_stack lvl else (l, i) # parent_stack)"

text \<open>The loop over the units: the edges appended from this unit on, in order.\<close>

fun hierarchy_loop :: "atomic_unit list \<Rightarrow> (int \<times> string) list \<Rightarrow> graph_edge list" where
  "hierarchy_loop [] parent_stack = []"
| "hierarchy_loop (unit # units) parent_stack =
     (let parent_stack = pop_parents parent_stack (u_level unit);
          new_edges =
            (case parent_stack of
               [] \<Rightarrow> []
             | (l, parent_id) # _ \<Rightarrow>
                 [\<lparr>source_id = parent_id, target_id = u_id unit, edge_type = CONTAINS,
                   edge_metadata = [(''hierarchy'', JBool True)]\<rparr>])
      in new_edges @ hierarchy_loop units ((u_level unit, u_id unit) # parent_stack))"

definition create_hierarchy_edges :: "atomic_unit list \<Rightarrow> graph_edge list" where
  "create_hierarchy_edges atomic_units = hierarchy_loop atomic_units []"

section \<open>Tokenizer (tokenizer.py)\<close>

text \<open>
  \<^verbatim>\<open>re.findall(r"\b[\w-]+\b", text)\<close>. A token character is a word character or the
  hyphen (code point 45). At a start position with a word boundary, the engine takes the
  whole run of token characters and backtracks to the longest prefix that ends at a word
  boundary. \<open>match_run c run nxt\<close> is that search for a run \<open>c # run\<close> followed by
  \<open>nxt\<close>: the number of characters of \<open>run\<close> the match takes, or \<open>None\<close> when no
  prefix ends at a boundary. After a match the scan resumes behind it; without one it
  moves one character on.
\<close>

definition is_token_char :: "nat \<Rightarrow> bool" where
  "is_token_char c \<longleftrightarrow> is_word c \<or> c = 45"

fun match_run :: "nat \<Rightarrow> ustring \<Rightarrow> nat option \<Rightarrow> nat option" where
  "match_run c [] nxt = (if boundary (Some c) nxt then Some 0 else None)"
| "match_run c (d # ds) nxt =
     (case match_run d ds nxt of
        Some n \<Rightarrow> Some (Suc n)
      | None \<Rightarrow> if boundary (Some c) (Some d) then Some 0 else None)"

fun findall_tokens :: "nat option \<Rightarrow> ustring \<Rightarrow> ustring list" where
  "findall_tokens prev [] = []"
| "findall_tokens prev (c # s) =
     (if is_token_char c \<and> boundary prev (Some c)
      then case match_run c (takeWhile is_token_char s) (first_opt (dropWhile is_token_char s)) of
             Some n \<Rightarrow> (c # take n s) # findall_tokens (Some (last (c # take n s))) (drop n s)
           | None \<Rightarrow> findall_tokens (Some c) s
      else findall_tokens (Some c) s)"

text \<open>
  The tokenizer object: the flag and the stop word set built by \<^verbatim>\<open>__init__\<close>. The
  English and Russian lists come from the NLTK corpus, which is not part of the
  repository: they are parameters. The Uzbek list is the one of the source.
\<close>

record tokenizer =
  remove_stopwords :: bool
  stopwords :: "ustring set"

definition get_uzbek_stopwords :: "ustring list" where
  "get_uzbek_stopwords =
     map ascii [''va'', ''yoki'', ''lekin'', ''uchun'', ''bilan'', ''dan'', ''ga'', ''ni'', ''bu'',
       ''shu'', ''o'', ''u'', ''ham'', ''yoxud'', ''yo'', ''esa'', ''edi'', ''ekan'', ''kerak'',
       ''mumkin'', ''sifatida'', ''haqida'', ''agar'']"

definition init_tokenizer :: "bool \<Rightarrow> ustring list \<Rightarrow> ustring list \<Rightarrow> tokenizer" where
  "init_tokenizer remove english russian =
     \<lparr>remove_stopwords = remove,
      stopwords = (if remove then set english \<union> set russian \<union> set get_uzbek_stopwords else {})\<rparr>"

text \<open>\<^verbatim>\<open>str.strip()\<close>\<close>

definition strip :: "ustring \<Rightarrow> ustring" where
  "strip s = rev (dropWhile is_space (rev (dropWhile is_space s)))"

definition tokenize :: "tokenizer \<Rightarrow> ustring \<Rightarrow> ustring list" where
  "tokenize tk text =
     (if text = [] \<or> strip text = [] then []
      else
        let text = lower text;
            tokens = findall_tokens None text;
            tokens = (if remove_stopwords tk then filter (\<lambda>t. t \<notin> stopwords tk) tokens else tokens);
            tokens = filter (\<lambda>t. length t \<ge> 2 \<or> isdigit t) tokens
        in tokens)"

section \<open>Stored state\<close>

text \<open>
  The rows of the tables the core reads. A sparse index row and a graph row carry the
  tenant and the chat they were stored for. The metadata dictionary stored with each
  indexed unit has five keys.
\<close>

record unit_metadata =
  md_document_id :: string
  md_unit_type :: string
  md_sequence :: int
  md_page_number :: "int option"
  md_section_title :: "ustring option"

record bm25_index_row =
  bi_tenant_id :: string
  bi_chat_id :: string
  corpus_tokens :: "ustring list list"
  doc_ids :: "string list"
  doc_metadata :: "unit_metadata list"
  document_count :: nat
  total_tokens :: nat

text \<open>The \<^verbatim>\<open>nodes\<close> column is a JSON object from node id to node; \<open>nodes_of\<close> is its
  lookup.\<close>

record document_graph_row =
  dg_tenant_id :: string
  dg_chat_id :: string
  nodes :: "(string \<times> graph_node) list"
  edges :: "graph_edge list"

definition nodes_of :: "document_graph_row \<Rightarrow> (string \<rightharpoonup> graph_node)" where
  "nodes_of graph = map_of (nodes graph)"

record database =
  atomic_units :: "atomic_unit list"
  bm25_indexes :: "bm25_index_row list"
  document_graphs :: "document_graph_row list"

text \<open>
  The database session of a request: the stored rows, whether statements can be
  executed at all (a lost connection makes every \<^verbatim>\<open>execute\<close> raise), and the number of
  rollbacks issued on the session.
\<close>

record session =
  db :: database
  connected :: bool
  rollbacks :: nat

definition rollback :: "session \<Rightarrow> session" where
  "rollback s = s\<lparr>rollbacks := Suc (rollbacks s)\<rparr>"

text \<open>\<^verbatim>\<open>result.scalar_one_or_none()\<close>: more than one row raises.\<close>

definition scalar_one_or_none :: "'a list \<Rightarrow> error + 'a option" where
  "scalar_one_or_none rows =
     (case rows of [] \<Rightarrow> Inr None | [r] \<Rightarrow> Inr (Some r) | _ \<Rightarrow> Inl MultipleResultsFound)"

text \<open>\<^verbatim>\<open>await self.db.execute(select(...).where(...))\<close> on a table.\<close>

definition execute_select :: "session \<Rightarrow> (database \<Rightarrow> 'a list) \<Rightarrow> ('a \<Rightarrow> bool) \<Rightarrow> error + 'a list" where
  "execute_select s table cond =
     (if connected s then Inr (filter cond (table (db s))) else Inl ExternalError)"

section \<open>Sparse index (bm25_service.py)\<close>

text \<open>\<^verbatim>\<open>_load_index\<close>: the row of the chat and the tenant.\<close>

definition load_index :: "session \<Rightarrow> string \<Rightarrow> string \<Rightarrow> error + bm25_index_row option" where
  "load_index s chat tenant =
     (case execute_select s bm25_indexes (\<lambda>r. bi_chat_id r = chat \<and> bi_tenant_id r = tenant) of
        Inl e \<Rightarrow> Inl e
      | Inr rows \<Rightarrow> scalar_one_or_none rows)"

text \<open>A Python slice \<^verbatim>\<open>xs[:k]\<close>: a negative \<open>k\<close> counts from the end.\<close>

definition py_take :: "int \<Rightarrow> 'a list \<Rightarrow> 'a list" where
  "py_take k xs = (if k \<ge> 0 then take (nat k) xs else take (length xs - nat (- k)) xs)"

text \<open>
  \<^verbatim>\<open>sorted(range(len(scores)), key=lambda i: scores[i], reverse=True)[:top_k]\<close>
\<close>

definition top_indices :: "real list \<Rightarrow> int \<Rightarrow> nat list" where
  "top_indices scores k = py_take k (sorted_desc (\<lambda>i. scores ! i) [0..<length scores])"

record search_hit =
  hit_atomic_unit_id :: string
  hit_score :: real
  hit_metadata :: unit_metadata

text \<open>The result loop. \<^verbatim>\<open>index_data["doc_ids"][idx]\<close> raises IndexError when the stored
  arrays are shorter than the score list.\<close>

fun format_results :: "bm25_index_row \<Rightarrow> real list \<Rightarrow> nat list \<Rightarrow> error + search_hit list" where
  "format_results index_data scores [] = Inr []"
| "format_results index_data scores (idx # rest) =
     (if scores ! idx > 0
      then if idx < length (doc_ids index_data) \<and> idx < length (doc_metadata index_data)
           then case format_results index_data scores rest of
                  Inl e \<Rightarrow> Inl e
                | Inr results \<Rightarrow>
                    Inr (\<lparr>hit_atomic_unit_id = doc_ids index_data ! idx, hit_score = scores ! idx,
                          hit_metadata = doc_metadata index_data ! idx\<rparr> # results)
           else Inl IndexError
      else format_results index_data scores rest)"

text \<open>
  \<^verbatim>\<open>search\<close>. \<^verbatim>\<open>BM25Okapi\<close> of the \<^verbatim>\<open>rank_bm25\<close> package is external: \<open>scorer\<close>
  stands for building the ranking object from the stored corpus and calling
  \<^verbatim>\<open>get_scores\<close>; it returns one score per document or fails.
  \<^verbatim>\<open>BM25IndexNotFoundError\<close> is re-raised as it is, every other exception as
  \<^verbatim>\<open>BM25Error\<close>.
\<close>

definition search ::
  "tokenizer \<Rightarrow> (ustring list list \<Rightarrow> ustring list \<Rightarrow> error + real list) \<Rightarrow>
   session \<Rightarrow> string \<Rightarrow> string \<Rightarrow> ustring \<Rightarrow> int \<Rightarrow> error + search_hit list" where
  "search tk scorer s chat tenant qtext k =
     (case load_index s chat tenant of
        Inl e \<Rightarrow> Inl (BM25Error e)
      | Inr None \<Rightarrow> Inl BM25IndexNotFoundError
      | Inr (Some index_data) \<Rightarrow>
          (case scorer (corpus_tokens index_data) (tokenize tk qtext) of
             Inl e \<Rightarrow> Inl (BM25Error e)
           | Inr scores \<Rightarrow>
               (case format_results index_data scores (top_indices scores k) of
                  Inl e \<Rightarrow> Inl (BM25Error e)
                | Inr results \<Rightarrow> Inr results)))"

subsection \<open>Building and storing the index\<close>




section \<open>Graph store (graph/graph_service.py)\<close>

definition load_graph :: "session \<Rightarrow> string \<Rightarrow> string \<Rightarrow> error + document_graph_row option" where
  "load_graph s chat tenant =
     (case execute_select s document_graphs (\<lambda>r. dg_chat_id r = chat \<and> dg_tenant_id r = tenant) of
        Inl e \<Rightarrow> Inl e
      | Inr rows \<Rightarrow> scalar_one_or_none rows)"

record neighbor =
  node :: graph_node
  edge :: graph_edge
  distance :: nat

text \<open>
  The three nested loops of \<^verbatim>\<open>get_neighbors\<close>. The state of the two inner loops is
  \<open>(visited, next_layer, neighbors)\<close>.
  \<^verbatim>\<open>for edge in graph["edges"]\<close>:
\<close>

fun scan_edges ::
  "document_graph_row \<Rightarrow> string option \<Rightarrow> nat \<Rightarrow> string \<Rightarrow> graph_edge list \<Rightarrow>
   string set \<times> string list \<times> neighbor list \<Rightarrow> string set \<times> string list \<times> neighbor list" where
  "scan_edges graph etype hop current_id [] st = st"
| "scan_edges graph etype hop current_id (e # es) (visited, next_layer, neighbors) =
     (if source_id e = current_id \<and> (etype = None \<or> Some (edge_type e) = etype)
         \<and> target_id e \<notin> visited
      then scan_edges graph etype hop current_id es
             (insert (target_id e) visited, next_layer @ [target_id e],
              (case nodes_of graph (target_id e) of
                 Some n \<Rightarrow> neighbors @ [\<lparr>node = n, edge = e, distance = hop + 1\<rparr>]
               | None \<Rightarrow> neighbors))
      else scan_edges graph etype hop current_id es (visited, next_layer, neighbors))"

text \<open>\<^verbatim>\<open>for current_id in current_layer\<close>:\<close>

fun scan_layer ::
  "document_graph_row \<Rightarrow> string option \<Rightarrow> nat \<Rightarrow> string list \<Rightarrow>
   string set \<times> string list \<times> neighbor list \<Rightarrow> string set \<times> string list \<times> neighbor list" where
  "scan_layer graph etype hop [] st = st"
| "scan_layer graph etype hop (current_id # rest) st =
     scan_layer graph etype hop rest (scan_edges graph etype hop current_id (edges graph) st)"

text \<open>\<^verbatim>\<open>for hop in range(hops)\<close>, with the number of rounds left:\<close>

fun hop_loop ::
  "document_graph_row \<Rightarrow> string option \<Rightarrow> nat \<Rightarrow> nat \<Rightarrow> string list \<Rightarrow>
   string set \<Rightarrow> neighbor list \<Rightarrow> neighbor list" where
  "hop_loop graph etype hop 0 current_layer visited neighbors = neighbors"
| "hop_loop graph etype hop (Suc n) current_layer visited neighbors =
     (case scan_layer graph etype hop current_layer (visited, [], neighbors) of
        (visited', next_layer, neighbors') \<Rightarrow>
          hop_loop graph etype (Suc hop) n next_layer visited' neighbors')"

definition get_neighbors ::
  "session \<Rightarrow> string \<Rightarrow> string \<Rightarrow> string \<Rightarrow> string option \<Rightarrow> int \<Rightarrow> error + neighbor list" where
  "get_neighbors s chat tenant start etype hops =
     (case load_graph s chat tenant of
        Inl e \<Rightarrow> Inl e
      | Inr None \<Rightarrow> Inl GraphNotFoundError
      | Inr (Some graph) \<Rightarrow> Inr (hop_loop graph etype 0 (nat hops) [start] {start} []))"

section \<open>Retrievers and the hybrid retrieval engine (retrieval/*.py, schemas/retrieval.py)\<close>

text \<open>The values of \<^verbatim>\<open>RetrievalMode\<close>.\<close>

definition DENSE_ONLY :: string where "DENSE_ONLY = ''dense_only''"
definition SPARSE_ONLY :: string where "SPARSE_ONLY = ''sparse_only''"
definition HYBRID :: string where "HYBRID = ''hybrid''"
definition GRAPH_ENHANCED :: string where "GRAPH_ENHANCED = ''graph_enhanced''"

record retrieval_request =
  req_query :: ustring
  req_mode :: string
  req_top_k :: int
  req_score_threshold :: real
  req_expand_with_neighbors :: bool
  req_neighbor_hops :: int

record retrieved_context =
  ctx_atomic_unit_id :: string
  ctx_text :: ustring
  ctx_score :: real
  ctx_source :: string
  ctx_document_id :: string
  ctx_unit_type :: string
  ctx_sequence :: int
  ctx_page_number :: "int option"
  ctx_section_title :: "ustring option"
  ctx_dense_score :: "real option"
  ctx_sparse_score :: "real option"
  ctx_graph_distance :: "nat option"

text \<open>What the \<^verbatim>\<open>metadata\<close> key of a ranked item holds: the metadata stored in the
  sparse index, the payload of a vector store point, or a graph node.\<close>

datatype item_metadata =
    IndexMetadata unit_metadata
  | VectorPayload "(string \<times> json) list"
  | NodeData graph_node

type_synonym item = "item_metadata result_item"

text \<open>
  The collaborators injected into the engine. The embedding model and the vector store
  are external: \<open>svc_vector_search chat tenant query limit threshold\<close> stands for
  embedding the query and searching the chat's collection with the tenant filter; it
  returns \<open>(id, score, payload)\<close> triples or fails.
\<close>

record services =
  svc_tokenizer :: tokenizer
  svc_scorer :: "ustring list list \<Rightarrow> ustring list \<Rightarrow> error + real list"
  svc_vector_search ::
    "string \<Rightarrow> string \<Rightarrow> ustring \<Rightarrow> int \<Rightarrow> real \<Rightarrow> error + (string \<times> real \<times> (string \<times> json) list) list"

text \<open>\<^verbatim>\<open>DenseRetriever.retrieve\<close>: any exception is logged and an empty list returned.\<close>

definition dense_retrieve ::
  "services \<Rightarrow> string \<Rightarrow> string \<Rightarrow> ustring \<Rightarrow> int \<Rightarrow> real \<Rightarrow> item list" where
  "dense_retrieve svc chat tenant qtext k threshold =
     (case svc_vector_search svc chat tenant qtext k threshold of
        Inl e \<Rightarrow> []
      | Inr results \<Rightarrow>
          map (\<lambda>(i, sc, payload).
                 \<lparr>atomic_unit_id = i, score = sc, source = ''dense'',
                  metadata = VectorPayload payload, graph_distance = None\<rparr>) results)"

text \<open>\<^verbatim>\<open>SparseRetriever.retrieve\<close>: any exception of the BM25 search is logged and an
  empty list returned.\<close>

definition sparse_retrieve ::
  "services \<Rightarrow> session \<Rightarrow> string \<Rightarrow> string \<Rightarrow> ustring \<Rightarrow> int \<Rightarrow> item list" where
  "sparse_retrieve svc s chat tenant qtext k =
     (case search (svc_tokenizer svc) (svc_scorer svc) s chat tenant qtext k of
        Inl e \<Rightarrow> []
      | Inr results \<Rightarrow>
          map (\<lambda>h. \<lparr>atomic_unit_id = hit_atomic_unit_id h, score = hit_score h, source = ''sparse'',
                     metadata = IndexMetadata (hit_metadata h), graph_distance = None\<rparr>) results)"

text \<open>\<^verbatim>\<open>_hybrid\<close>\<close>

definition hybrid ::
  "services \<Rightarrow> session \<Rightarrow> string \<Rightarrow> string \<Rightarrow> ustring \<Rightarrow> int \<Rightarrow> real \<Rightarrow> error + item list" where
  "hybrid svc s chat tenant qtext k threshold =
     (let dense_results = dense_retrieve svc chat tenant qtext (k * 2) threshold;
          sparse_results = sparse_retrieve svc s chat tenant qtext (k * 2)
      in case fuse rrf_k [dense_results, sparse_results] (Some [0.6, 0.4]) of
           Inl e \<Rightarrow> Inl e
         | Inr fused \<Rightarrow> Inr (py_take k fused))"

text \<open>\<^verbatim>\<open>_expand_with_neighbors\<close>: the loop over the neighbours of one result; the state is
  \<open>(expanded, seen_ids)\<close>.\<close>

fun add_neighbors :: "item \<Rightarrow> neighbor list \<Rightarrow> item list \<times> string set \<Rightarrow> item list \<times> string set" where
  "add_neighbors result [] st = st"
| "add_neighbors result (nb # nbs) (expanded, seen_ids) =
     (let neighbor_id = node_id (node nb)
      in if neighbor_id \<notin> seen_ids
         then add_neighbors result nbs
                (expanded @ [\<lparr>atomic_unit_id = neighbor_id,
                               score = score result * 0.8 ^ distance nb,
                               source = ''graph'', metadata = NodeData (node nb),
                               graph_distance = Some (distance nb)\<rparr>],
                 insert neighbor_id seen_ids)
         else add_neighbors result nbs (expanded, seen_ids))"

text \<open>The loop over the results. A failing neighbour query is logged and skipped.\<close>

fun expand_loop ::
  "session \<Rightarrow> string \<Rightarrow> string \<Rightarrow> int \<Rightarrow> item list \<Rightarrow> item list \<times> string set \<Rightarrow>
   item list \<times> string set" where
  "expand_loop s chat tenant hops [] st = st"
| "expand_loop s chat tenant hops (result # rest) (expanded, seen_ids) =
     (let nid = atomic_unit_id result;
          st = (if nid \<notin> seen_ids then (expanded @ [result], insert nid seen_ids)
                else (expanded, seen_ids));
          st = (case get_neighbors s chat tenant nid None hops of
                  Inl e \<Rightarrow> st
                | Inr neighbors \<Rightarrow> add_neighbors result neighbors st)
      in expand_loop s chat tenant hops rest st)"

definition expand_with_neighbors ::
  "session \<Rightarrow> string \<Rightarrow> string \<Rightarrow> item list \<Rightarrow> int \<Rightarrow> item list" where
  "expand_with_neighbors s chat tenant results hops =
     sorted_desc score (fst (expand_loop s chat tenant hops results ([], {})))"

text \<open>\<^verbatim>\<open>_graph_enhanced\<close>\<close>

definition graph_enhanced ::
  "services \<Rightarrow> session \<Rightarrow> string \<Rightarrow> string \<Rightarrow> retrieval_request \<Rightarrow> real \<Rightarrow> error + item list" where
  "graph_enhanced svc s chat tenant request threshold =
     (case hybrid svc s chat tenant (req_query request) (req_top_k request) threshold of
        Inl e \<Rightarrow> Inl e
      | Inr hybrid_results \<Rightarrow>
          Inr (expand_with_neighbors s chat tenant hybrid_results (req_neighbor_hops request)))"

text \<open>
  \<^verbatim>\<open>_enrich_results\<close>. The units are selected by
  \<^verbatim>\<open>AtomicUnit.id.in_(unit_ids)\<close> alone and put in a dictionary by id; results without
  a unit are dropped. Any exception is logged and an empty list returned.
\<close>

definition enrich_results :: "session \<Rightarrow> item list \<Rightarrow> retrieved_context list" where
  "enrich_results s results =
     (if results = [] then []
      else
        let unit_ids = map atomic_unit_id results
        in case execute_select s atomic_units (\<lambda>u. u_id u \<in> set unit_ids) of
             Inl e \<Rightarrow> []
           | Inr rows \<Rightarrow>
               let units = map_of (rev (map (\<lambda>u. (u_id u, u)) rows))
               in List.map_filter
                    (\<lambda>result.
                       case units (atomic_unit_id result) of
                         None \<Rightarrow> None
                       | Some unit \<Rightarrow>
                           Some \<lparr>ctx_atomic_unit_id = atomic_unit_id result, ctx_text = u_text unit,
                                 ctx_score = score result, ctx_source = source result,
                                 ctx_document_id = u_document_id unit,
                                 ctx_unit_type = u_unit_type unit, ctx_sequence = u_sequence unit,
                                 ctx_page_number = u_page_number unit,
                                 ctx_section_title = u_section_title unit,
                                 ctx_dense_score = None, ctx_sparse_score = None,
                                 ctx_graph_distance = graph_distance result\<rparr>)
                    results)"

text \<open>
  \<^verbatim>\<open>HybridRetriever.retrieve\<close>. \<open>retrieve_body\<close> is the \<^verbatim>\<open>try\<close> block; the
  \<^verbatim>\<open>except Exception\<close> handler rolls the session back and raises
  \<^verbatim>\<open>RetrievalError\<close>. The result is the outcome and the session after the call.
\<close>

definition retrieve_body ::
  "services \<Rightarrow> session \<Rightarrow> string \<Rightarrow> string \<Rightarrow> retrieval_request \<Rightarrow> error + retrieved_context list" where
  "retrieve_body svc s chat tenant request =
     (case
        (if req_mode request = DENSE_ONLY
         then Inr (dense_retrieve svc chat tenant (req_query request) (req_top_k request)
                     (req_score_threshold request))
         else if req_mode request = SPARSE_ONLY
         then Inr (sparse_retrieve svc s chat tenant (req_query request) (req_top_k request))
         else if req_mode request = HYBRID
         then hybrid svc s chat tenant (req_query request) (req_top_k request)
                (req_score_threshold request)
         else if req_mode request = GRAPH_ENHANCED
         then graph_enhanced svc s chat tenant request (req_score_threshold request)
         else Inl InvalidRetrievalModeError)
      of
        Inl e \<Rightarrow> Inl e
      | Inr results \<Rightarrow>
          let results =
                (if req_expand_with_neighbors request \<and> req_mode request \<noteq> GRAPH_ENHANCED
                 then expand_with_neighbors s chat tenant results (req_neighbor_hops request)
                 else results);
              contexts = enrich_results s results;
              contexts = filter (\<lambda>c. ctx_score c \<ge> req_score_threshold request) contexts;
              contexts = py_take (req_top_k request) contexts
          in Inr contexts)"

definition retrieve ::
  "services \<Rightarrow> session \<Rightarrow> string \<Rightarrow> string \<Rightarrow> retrieval_request \<Rightarrow>
   (error + retrieved_context list) \<times> session" where
  "retrieve svc s chat tenant request =
     (case retrieve_body svc s chat tenant request of
        Inl e \<Rightarrow> (Inl (RetrievalError e), rollback s)
      | Inr contexts \<Rightarrow> (Inr contexts, s))"

section \<open>Test fixtures\<close>

text \<open>A language detector that raises \<^verbatim>\<open>LangDetectException\<close> on every query.\<close>

definition no_detection :: "ustring \<Rightarrow> string option" where
  "no_detection q = None"

text \<open>A unit of tenant \<open>t1\<close> in chat \<open>c1\<close> and document \<open>d1\<close>, given its id, level and position.\<close>

definition sample_unit :: "string \<Rightarrow> int \<Rightarrow> int \<Rightarrow> atomic_unit" where
  "sample_unit i lvl sq =
     \<lparr>u_id = i, u_tenant_id = ''t1'', u_chat_id = ''c1'', u_document_id = ''d1'',
      u_unit_type = ''paragraph'', u_text = [], u_sequence = sq, u_level = lvl,
      u_page_number = None, u_section_title = None\<rparr>"

text \<open>A tokenizer without the NLTK lists.\<close>

definition plain_tokenizer :: tokenizer where
  "plain_tokenizer = init_tokenizer True [] []"

text \<open>A stand-in for the ranking library: the score of a document is the number of its
  tokens that occur in the query.\<close>

definition overlap_scorer :: "ustring list list \<Rightarrow> ustring list \<Rightarrow> error + real list" where
  "overlap_scorer corpus q = Inr (map (\<lambda>doc. real (length (filter (\<lambda>t. t \<in> set q) doc))) corpus)"

text \<open>A vector store that cannot be reached.\<close>

definition offline_vector_search ::
  "string \<Rightarrow> string \<Rightarrow> ustring \<Rightarrow> int \<Rightarrow> real \<Rightarrow> error + (string \<times> real \<times> (string \<times> json) list) list" where
  "offline_vector_search chat tenant q k threshold = Inl ExternalError"

definition sample_services :: services where
  "sample_services =
     \<lparr>svc_tokenizer = plain_tokenizer, svc_scorer = overlap_scorer,
      svc_vector_search = offline_vector_search\<rparr>"

text \<open>A session on a database with no rows.\<close>

definition empty_session :: session where
  "empty_session =
     \<lparr>db = \<lparr>atomic_units = [], bm25_indexes = [], document_graphs = []\<rparr>,
      connected = True, rollbacks = 0\<rparr>"

definition sparse_request :: "ustring \<Rightarrow> int \<Rightarrow> retrieval_request" where
  "sparse_request q k =
     \<lparr>req_query = q, req_mode = SPARSE_ONLY, req_top_k = k, req_score_threshold = 0,
      req_expand_with_neighbors = False, req_neighbor_hops = 0\<rparr>"






text \<open>A stored graph of four nodes: \<open>a\<close> is followed by \<open>b\<close> and contains \<open>c\<close>,
  \<open>b\<close> is followed by \<open>c\<close>, and \<open>c\<close> by \<open>d\<close>.\<close>

definition sample_node :: "string \<Rightarrow> int \<Rightarrow> int \<Rightarrow> graph_node" where
  "sample_node i lvl sq =
     \<lparr>node_id = i, node_type = ''paragraph'', node_text = [], level = lvl, sequence = sq,
      node_document_id = ''doc-a'', node_page_number = None, node_section_title = None\<rparr>"

definition sample_edge :: "string \<Rightarrow> string \<Rightarrow> string \<Rightarrow> graph_edge" where
  "sample_edge a b t = \<lparr>source_id = a, target_id = b, edge_type = t, edge_metadata = []\<rparr>"

definition graph_session :: session where
  "graph_session =
     \<lparr>db = \<lparr>atomic_units = [], bm25_indexes = [],
            document_graphs =
              [\<lparr>dg_tenant_id = ''tenant-a'', dg_chat_id = ''chat-1'',
                nodes = [(''a'', sample_node ''a'' 0 0), (''b'', sample_node ''b'' 1 1),
                         (''c'', sample_node ''c'' 1 2), (''d'', sample_node ''d'' 1 3)],
                edges = [sample_edge ''a'' ''b'' NEXT, sample_edge ''a'' ''c'' CONTAINS,
                         sample_edge ''b'' ''c'' NEXT, sample_edge ''c'' ''d'' NEXT]\<rparr>]\<rparr>,
      connected = True, rollbacks = 0\<rparr>"

section \<open>Specification-level notions and proof invariants\<close>

text \<open>The position of the first occurrence of an identifier in a list.\<close>

definition pos_of :: "string list \<Rightarrow> string \<Rightarrow> nat" where
  "pos_of ids i = length (takeWhile (\<lambda>x. x \<noteq> i) ids)"

text \<open>
  The neighbour query in the words of the specification. An edge matches the optional
  type filter; \<open>successors\<close> are the targets of the matching edges that leave a set of
  nodes. \<open>spec_round graph etype start r\<close> is the pair \<open>(frontier, visited)\<close> after
  \<open>r\<close> rounds: initially both are \<open>{start}\<close>; a round follows the matching edges out
  of the frontier to the targets not yet visited, which become the next frontier and
  are marked visited. The frontier of round \<open>r\<close> holds the nodes discovered in round
  \<open>r\<close>.
\<close>

definition edge_matches :: "string option \<Rightarrow> graph_edge \<Rightarrow> bool" where
  "edge_matches etype e \<longleftrightarrow> etype = None \<or> Some (edge_type e) = etype"

definition successors :: "document_graph_row \<Rightarrow> string option \<Rightarrow> string set \<Rightarrow> string set" where
  "successors graph etype S =
     target_id ` {e. e \<in> set (edges graph) \<and> source_id e \<in> S \<and> edge_matches etype e}"

fun spec_round ::
  "document_graph_row \<Rightarrow> string option \<Rightarrow> string \<Rightarrow> nat \<Rightarrow> string set \<times> string set" where
  "spec_round graph etype start 0 = ({start}, {start})"
| "spec_round graph etype start (Suc r) =
     (case spec_round graph etype start r of
        (frontier, visited) \<Rightarrow>
          (successors graph etype frontier - visited,
           visited \<union> (successors graph etype frontier - visited)))"

definition discovered_in :: "document_graph_row \<Rightarrow> string option \<Rightarrow> string \<Rightarrow> nat \<Rightarrow> string set" where
  "discovered_in graph etype start r = fst (spec_round graph etype start r)"

text \<open>Notions of the proof about the neighbour query: the node a returned tuple stands
  for, the tuples added for a list of newly visited targets, and the invariant of the
  loop over the rounds.\<close>

definition tgt :: "neighbor \<Rightarrow> string" where
  "tgt x = target_id (edge x)"

definition fresh_neighbors ::
  "document_graph_row \<Rightarrow> nat \<Rightarrow> string list \<Rightarrow> neighbor list \<Rightarrow> bool" where
  "fresh_neighbors graph hop l ns \<longleftrightarrow>
     map tgt ns = filter (\<lambda>t. t \<in> dom (nodes_of graph)) l
     \<and> (\<forall>x \<in> set ns. distance x = Suc hop \<and> nodes_of graph (tgt x) = Some (node x))"

definition bfs_inv ::
  "document_graph_row \<Rightarrow> string option \<Rightarrow> string \<Rightarrow> nat \<Rightarrow> string list \<Rightarrow> string set \<Rightarrow>
   neighbor list \<Rightarrow> bool" where
  "bfs_inv graph etype start r L V N \<longleftrightarrow>
     set L = fst (spec_round graph etype start r)
     \<and> V = snd (spec_round graph etype start r)
     \<and> distinct (map tgt N) \<and> set (map tgt N) \<subseteq> V - {start}
     \<and> (\<forall>x \<in> set N. 1 \<le> distance x \<and> distance x \<le> r
            \<and> tgt x \<in> discovered_in graph etype start (distance x)
            \<and> nodes_of graph (tgt x) = Some (node x))
     \<and> (\<forall>r' t. 1 \<le> r' \<and> r' \<le> r \<and> t \<in> discovered_in graph etype start r'
            \<and> t \<in> dom (nodes_of graph) \<longrightarrow> (\<exists>x \<in> set N. tgt x = t \<and> distance x = r'))"




section \<open>Verification: reciprocal rank fusion\<close>

lemmas fuse_eval = Let_def fuse_def rrf_k_def sorted_desc_def fused_results_def store_first_def

text \<open>
  Claim C2, as amended. Fusing the ranked lists \<open>[a, b]\<close> and \<open>[b, c]\<close> with weights
  \<open>[0.6, 0.4]\<close> and \<open>k = 60\<close>, whatever the payloads of the four entries, yields
  \<open>b\<close> first, then \<open>a\<close>, then \<open>c\<close>, each exactly once. \<open>b\<close> stands at rank 2 of
  the first list and at rank 1 of the second, so its fused score is
  \<open>0.6/62 + 0.4/61\<close>; \<open>b\<close> keeps the payload of its first occurrence.
\<close>

theorem fuse_scenario:
  "fuse rrf_k
     [[a\<lparr>atomic_unit_id := ''a''\<rparr>, b\<lparr>atomic_unit_id := ''b''\<rparr>],
      [b'\<lparr>atomic_unit_id := ''b''\<rparr>, c\<lparr>atomic_unit_id := ''c''\<rparr>]]
     (Some [0.6, 0.4]) =
   Inr [b\<lparr>atomic_unit_id := ''b'', score := 0.6 / 62 + 0.4 / 61, source := ''fusion''\<rparr>,
        a\<lparr>atomic_unit_id := ''a'', score := 0.6 / 61, source := ''fusion''\<rparr>,
        c\<lparr>atomic_unit_id := ''c'', score := 0.4 / 62, source := ''fusion''\<rparr>]"
  by (simp add: fuse_eval)

text \<open>
  Claim C2 as stated gives \<open>b\<close> the score \<open>0.6/61 + 0.4/61\<close>, as if \<open>b\<close> stood at
  rank 1 of both lists. On concrete entries the first fused result does not have that
  score.
\<close>

theorem fuse_scenario_score_counterexample:
  "score (hd (projr (fuse rrf_k
      [[\<lparr>atomic_unit_id = ''a'', score = 0.9, source = ''dense'', metadata = (), graph_distance = None\<rparr>,
        \<lparr>atomic_unit_id = ''b'', score = 0.8, source = ''dense'', metadata = (), graph_distance = None\<rparr>],
       [\<lparr>atomic_unit_id = ''b'', score = 7, source = ''sparse'', metadata = (), graph_distance = None\<rparr>,
        \<lparr>atomic_unit_id = ''c'', score = 5, source = ''sparse'', metadata = (), graph_distance = None\<rparr>]]
      (Some [0.6, 0.4]))))
   \<noteq> 0.6 / 61 + 0.4 / 61"
  by (simp add: fuse_eval)

section \<open>Verification: query analyzer and router\<close>

lemma str_contains_iff: "str_contains w s \<longleftrightarrow> (\<exists>pre suf. s = pre @ w @ suf)"
proof (induction s)
  case Nil
  then show ?case by auto
next
  case (Cons c s)
  show ?case
  proof
    assume "str_contains w (c # s)"
    then consider "prefix w (c # s)" | "str_contains w s" by auto
    then show "\<exists>pre suf. c # s = pre @ w @ suf"
    proof cases
      case 1
      then obtain suf where "c # s = w @ suf" by (auto simp: prefix_def)
      then have "c # s = [] @ w @ suf" by simp
      then show ?thesis by blast
    next
      case 2
      with Cons.IH obtain pre suf where "s = pre @ w @ suf" by blast
      then have "c # s = (c # pre) @ w @ suf" by simp
      then show ?thesis by blast
    qed
  next
    assume "\<exists>pre suf. c # s = pre @ w @ suf"
    then obtain pre suf where eq: "c # s = pre @ w @ suf" by blast
    show "str_contains w (c # s)"
    proof (cases pre)
      case Nil
      with eq have "prefix w (c # s)" by (simp add: prefix_def)
      then show ?thesis by simp
    next
      case (Cons p ps)
      with eq have "s = ps @ w @ suf" by simp
      with Cons.IH have "str_contains w s" by blast
      then show ?thesis by simp
    qed
  qed
qed

lemma any_word_in_iff: "any_word_in ws s \<longleftrightarrow> list_ex (\<lambda>w. str_contains w s) ws"
  by (induction ws) auto

lemma any_language_word_in_iff:
  "any_language_word_in d s \<longleftrightarrow> list_ex (\<lambda>w. str_contains w s) (concat (map snd d))"
proof (induction d)
  case Nil
  show ?case by simp
next
  case (Cons p d)
  obtain lang_code ws where p: "p = (lang_code, ws)" by (cases p)
  show ?case using Cons.IH by (auto simp: p any_word_in_iff)
qed

text \<open>
  Claim C10. \<open>has_question_words\<close> holds exactly when a word of the English, Russian
  or Uzbek list occurs as a substring of the lower-cased query, or the query contains
  \<open>?\<close> (code point 63). The query \<open>showcase\<close> has the flag set, through \<open>how\<close>,
  although none of its white-space separated words is a question word.
\<close>

theorem has_question_words_substring:
  "has_question_words q lang =
     (list_ex (\<lambda>word. \<exists>pre suf. lower q = pre @ word @ suf) (concat (map snd question_words))
      \<or> 63 \<in> set q)
   \<and> has_question_words (ascii ''showcase'') lang
   \<and> \<not> list_ex (\<lambda>word. word \<in> set (split (lower (ascii ''showcase''))))
          (concat (map snd question_words))"
proof -
  have a: "has_question_words q lang =
     (list_ex (\<lambda>word. \<exists>pre suf. lower q = pre @ word @ suf) (concat (map snd question_words))
      \<or> 63 \<in> set q)"
    by (simp add: has_question_words_def any_language_word_in_iff str_contains_iff)
  have b: "any_language_word_in question_words (lower (ascii ''showcase''))"
    by code_simp
  have c: "\<not> list_ex (\<lambda>word. word \<in> set (split (lower (ascii ''showcase''))))
              (concat (map snd question_words))"
    by code_simp
  from a b c show ?thesis by (simp add: has_question_words_def)
qed

lemma article_27_features:
  "has_references (ascii ''What is Article 27?'')"
  "any_language_word_in question_words (lower (ascii ''What is Article 27?''))"
  "length (split (ascii ''What is Article 27?'')) = 4"
  by code_simp+

text \<open>
  Claim C8. For the query \<open>What is Article 27?\<close>, whatever the language detector and
  the chat configuration say, the analyzer returns \<open>EXACT_REFERENCE\<close> with confidence
  0.9, although the query has a question word and more than three words (the test of the
  second rule); the routing strategy then selects \<open>graph_enhanced\<close> with two neighbour
  hops, \<open>top_k = 10\<close>, threshold 0.2 and neighbour expansion.
\<close>

theorem article_27_routing:
  "query_type (analyze detect (ascii ''What is Article 27?'')) = EXACT_REFERENCE
   \<and> confidence (analyze detect (ascii ''What is Article 27?'')) = 0.9
   \<and> question_words_present (analyze detect (ascii ''What is Article 27?''))
   \<and> word_count (analyze detect (ascii ''What is Article 27?'')) > 3
   \<and> selected_mode (decide (analyze detect (ascii ''What is Article 27?'')) chat_config) = ''graph_enhanced''
   \<and> neighbor_hops (decide (analyze detect (ascii ''What is Article 27?'')) chat_config) = 2
   \<and> top_k (decide (analyze detect (ascii ''What is Article 27?'')) chat_config) = 10
   \<and> score_threshold (decide (analyze detect (ascii ''What is Article 27?'')) chat_config) = 0.2
   \<and> routing_decision.expand_with_neighbors
         (decide (analyze detect (ascii ''What is Article 27?'')) chat_config)"
  by (simp add: analyze_def Let_def classify_query_type_def article_27_features
      has_question_words_def decide_def handle_exact_reference_def)

text \<open>
  Claim C9, as amended. When the chat exists, \<open>route\<close> returns a decision. A non-empty
  \<open>force_mode\<close> replaces the selected mode and appends \<open>(Manually overridden)\<close> to the
  reasoning of the computed decision; without \<open>force_mode\<close> both the mode and the
  reasoning are the computed ones; a non-zero \<open>force_top_k\<close> replaces \<open>top_k\<close>. The
  reasoning is annotated for \<open>force_mode\<close> only.
\<close>

theorem route_overrides:
  fixes detect :: "ustring \<Rightarrow> string option" and request :: router_request
    and chat :: chat_row and db_chat :: "error + chat_row option"
  assumes "db_chat = Inr (Some chat)"
  defines "base \<equiv> decide (analyze detect (query request))
                     [''strictness'' \<mapsto> strictness chat, ''purpose'' \<mapsto> purpose chat]"
  shows "\<exists>d. route detect db_chat request = Inr d
       \<and> (\<forall>m. force_mode request = Some m \<and> m \<noteq> [] \<longrightarrow>
              selected_mode d = m \<and> reasoning d = reasoning base @ '' (Manually overridden)'')
       \<and> (force_mode request = None \<longrightarrow>
              selected_mode d = selected_mode base \<and> reasoning d = reasoning base)
       \<and> (\<forall>k. force_top_k request = Some k \<and> k \<noteq> 0 \<longrightarrow> top_k d = k)"
  using assms
  by (auto simp: route_def load_chat_config_def Let_def truthy_str_def truthy_int_def)

theorem route_overrides_witness:
  "(Inr (Some \<lparr>strictness = ''flexible'', purpose = ''general''\<rparr>) :: error + chat_row option)
     = Inr (Some \<lparr>strictness = ''flexible'', purpose = ''general''\<rparr>)
   \<and> (\<exists>d. route no_detection (Inr (Some \<lparr>strictness = ''flexible'', purpose = ''general''\<rparr>))
           \<lparr>query = ascii ''termination clause'', chat_id = ''c1'',
            force_mode = Some ''sparse_only'', force_top_k = Some 5\<rparr> = Inr d
         \<and> selected_mode d = ''sparse_only'' \<and> top_k d = 5
         \<and> reasoning d =
             ''Query type unclear. Using hybrid mode as default safe strategy. (Manually overridden)'')"
proof -
  have r: "reasoning (decide (analyze no_detection (ascii ''termination clause''))
             [''strictness'' \<mapsto> ''flexible'', ''purpose'' \<mapsto> ''general'']) =
           ''Query type unclear. Using hybrid mode as default safe strategy.''"
    by code_simp
  show ?thesis
    using route_overrides [where db_chat = "Inr (Some \<lparr>strictness = ''flexible'', purpose = ''general''\<rparr>)"
        and chat = "\<lparr>strictness = ''flexible'', purpose = ''general''\<rparr>"
        and request = "\<lparr>query = ascii ''termination clause'', chat_id = ''c1'',
                         force_mode = Some ''sparse_only'', force_top_k = Some 5\<rparr>"
        and detect = no_detection] r
    by auto
qed

text \<open>
  Claim C9 as stated also has the reasoning annotated when only \<open>force_top_k\<close> is
  supplied. With \<open>force_top_k = 5\<close> and no \<open>force_mode\<close>, \<open>top_k\<close> is replaced and
  the reasoning is the computed one, with no annotation.
\<close>

theorem top_k_override_not_annotated:
  "route no_detection (Inr (Some \<lparr>strictness = ''strict_docs_only'', purpose = ''general''\<rparr>))
         \<lparr>query = ascii ''termination clause'', chat_id = ''c1'', force_mode = None, force_top_k = Some 5\<rparr>
   = Inr \<lparr>selected_mode = ''hybrid'', top_k = 5, score_threshold = 0.3,
          expand_with_neighbors = False, neighbor_hops = 0,
          reasoning = ''Query type unclear. Using hybrid mode as default safe strategy.'',
          query_characteristics =
            \<lparr>query_type = UNCLEAR, language = UNKNOWN, has_numbers = False,
             has_exact_phrases = False, question_words_present = False, word_count = 2,
             contains_technical_terms = False, confidence = 0.3\<rparr>,
          chat_strictness = ''strict_docs_only'', chat_purpose = ''general''\<rparr>"
  by code_simp


section \<open>Verification: hierarchy edges of the graph builder\<close>

lemma pop_parents_subset: "set (pop_parents st lvl) \<subseteq> set st"
  by (induction st lvl rule: pop_parents.induct) auto

lemma pop_parents_top: "pop_parents st lvl = (l, i) # rest \<Longrightarrow> l < lvl"
  by (induction st lvl rule: pop_parents.induct) (auto split: if_splits)

lemma hierarchy_loop_edge:
  "e \<in> set (hierarchy_loop us st) \<Longrightarrow>
   \<exists>pre c post l. us = pre @ c # post \<and> target_id e = u_id c \<and> edge_type e = CONTAINS
      \<and> l < u_level c
      \<and> ((l, source_id e) \<in> set st \<or> (\<exists>p \<in> set pre. l = u_level p \<and> source_id e = u_id p))"
proof (induction us arbitrary: st)
  case Nil
  then show ?case by simp
next
  case (Cons u us)
  let ?st = "pop_parents st (u_level u)"
  have "(\<exists>l i rest. ?st = (l, i) # rest \<and>
           e = \<lparr>source_id = i, target_id = u_id u, edge_type = CONTAINS,
                 edge_metadata = [(''hierarchy'', JBool True)]\<rparr>)
        \<or> e \<in> set (hierarchy_loop us ((u_level u, u_id u) # ?st))"
  proof (cases ?st)
    case Nil
    with Cons.prems show ?thesis by (simp add: Let_def)
  next
    case (Cons a rest)
    obtain l i where "a = (l, i)" by (cases a)
    with Cons Cons.prems show ?thesis by (auto simp: Let_def)
  qed
  then consider
      (head) l i rest where "?st = (l, i) # rest"
        "e = \<lparr>source_id = i, target_id = u_id u, edge_type = CONTAINS,
              edge_metadata = [(''hierarchy'', JBool True)]\<rparr>"
    | (tail) "e \<in> set (hierarchy_loop us ((u_level u, u_id u) # ?st))"
    by blast
  then show ?case
  proof cases
    case head
    have "l < u_level u" using head(1) by (rule pop_parents_top)
    moreover have "(l, i) \<in> set st" using head(1) pop_parents_subset [of st "u_level u"] by auto
    ultimately have "u # us = [] @ u # us \<and> target_id e = u_id u \<and> edge_type e = CONTAINS
        \<and> l < u_level u \<and> (l, source_id e) \<in> set st"
      using head(2) by simp
    then show ?thesis by blast
  next
    case tail
    from Cons.IH [OF tail] obtain pre c post l where
      us: "us = pre @ c # post" and t: "target_id e = u_id c" "edge_type e = CONTAINS" "l < u_level c"
      and src: "(l, source_id e) \<in> set ((u_level u, u_id u) # ?st)
                \<or> (\<exists>p \<in> set pre. l = u_level p \<and> source_id e = u_id p)"
      by blast
    from src pop_parents_subset [of st "u_level u"]
    have "(l, source_id e) \<in> set st \<or> (\<exists>p \<in> set (u # pre). l = u_level p \<and> source_id e = u_id p)"
      by auto
    moreover have "u # us = (u # pre) @ c # post" using us by simp
    ultimately show ?thesis using t by blast
  qed
qed

lemma hierarchy_loop_targets: "set (map target_id (hierarchy_loop us st)) \<subseteq> set (map u_id us)"
proof (induction us arbitrary: st)
  case Nil
  show ?case by simp
next
  case (Cons u us)
  show ?case using Cons.IH [of "(u_level u, u_id u) # pop_parents st (u_level u)"]
    by (auto simp: Let_def split: list.splits)
qed

lemma hierarchy_loop_distinct_targets:
  "distinct (map u_id us) \<Longrightarrow> distinct (map target_id (hierarchy_loop us st))"
proof (induction us arbitrary: st)
  case Nil
  show ?case by simp
next
  case (Cons u us)
  have "u_id u \<notin> set (map target_id (hierarchy_loop us ((u_level u, u_id u) # pop_parents st (u_level u))))"
    using Cons.prems hierarchy_loop_targets [of us] by auto
  then show ?case using Cons.IH [of "(u_level u, u_id u) # pop_parents st (u_level u)"] Cons.prems
    by (auto simp: Let_def split: list.splits)
qed

lemma pos_of_member: "i \<in> set pre \<Longrightarrow> pos_of (pre @ rest) i < length pre"
  unfolding pos_of_def
  by (induction pre) auto

lemma pos_of_fresh: "i \<notin> set pre \<Longrightarrow> pos_of (pre @ i # rest) i = length pre"
  unfolding pos_of_def
  by (induction pre) auto

text \<open>
  Claim C5. The units are rows with a primary key, so their ids are distinct. Then every
  edge of the hierarchy builder is a CONTAINS edge from a unit to a unit of strictly
  greater level (the parent's level is strictly lower), no node is the target of two
  edges (at most one parent), and the parent relation has no cycle: each edge leads from
  an earlier to a later position of the list. The order by \<open>sequence\<close> is not needed.
\<close>

theorem contains_edges_forest:
  assumes ids: "distinct (map u_id units)"
  shows "(\<forall>e \<in> set (create_hierarchy_edges units).
            edge_type e = CONTAINS \<and>
            (\<exists>p \<in> set units. \<exists>c \<in> set units.
               u_id p = source_id e \<and> u_id c = target_id e \<and> u_level p < u_level c))
       \<and> distinct (map target_id (create_hierarchy_edges units))
       \<and> acyclic ((\<lambda>e. (source_id e, target_id e)) ` set (create_hierarchy_edges units))"
proof (intro conjI ballI)
  fix e assume e: "e \<in> set (create_hierarchy_edges units)"
  then obtain pre c post l p where
    "units = pre @ c # post" "target_id e = u_id c" "edge_type e = CONTAINS" "l < u_level c"
    "p \<in> set pre" "l = u_level p" "source_id e = u_id p"
    unfolding create_hierarchy_edges_def using hierarchy_loop_edge [of e units "[]"] by auto
  then show "edge_type e = CONTAINS" and
    "\<exists>p \<in> set units. \<exists>c \<in> set units.
        u_id p = source_id e \<and> u_id c = target_id e \<and> u_level p < u_level c"
    by auto
next
  show "distinct (map target_id (create_hierarchy_edges units))"
    unfolding create_hierarchy_edges_def using ids by (rule hierarchy_loop_distinct_targets)
next
  let ?R = "(\<lambda>e. (source_id e, target_id e)) ` set (create_hierarchy_edges units)"
  let ?pos = "pos_of (map u_id units)"
  have "?R \<subseteq> measure ?pos"
  proof
    fix x assume "x \<in> ?R"
    then obtain e where e: "e \<in> set (create_hierarchy_edges units)" and x: "x = (source_id e, target_id e)"
      by auto
    from e obtain pre c post p where
      u: "units = pre @ c # post" and t: "target_id e = u_id c"
      and p: "p \<in> set pre" "source_id e = u_id p"
      unfolding create_hierarchy_edges_def using hierarchy_loop_edge [of e units "[]"] by auto
    have "u_id c \<notin> set (map u_id pre)" using ids u by auto
    then have "?pos (u_id c) = length (map u_id pre)"
      using pos_of_fresh [of "u_id c" "map u_id pre" "map u_id post"] u by simp
    moreover have "?pos (u_id p) < length (map u_id pre)"
      using pos_of_member [of "u_id p" "map u_id pre" "map u_id (c # post)"] p u by simp
    ultimately show "x \<in> measure ?pos" using x t p by simp
  qed
  then have "wf ?R" by (rule wf_subset [OF wf_measure])
  then show "acyclic ?R" by (rule wf_acyclic)
qed

theorem contains_edges_forest_witness:
  "distinct (map u_id [sample_unit ''h'' 0 0, sample_unit ''p1'' 1 1, sample_unit ''p2'' 1 2])
   \<and> create_hierarchy_edges [sample_unit ''h'' 0 0, sample_unit ''p1'' 1 1, sample_unit ''p2'' 1 2] =
       [\<lparr>source_id = ''h'', target_id = ''p1'', edge_type = CONTAINS,
          edge_metadata = [(''hierarchy'', JBool True)]\<rparr>,
        \<lparr>source_id = ''h'', target_id = ''p2'', edge_type = CONTAINS,
          edge_metadata = [(''hierarchy'', JBool True)]\<rparr>]
   \<and> acyclic ((\<lambda>e. (source_id e, target_id e)) `
        set (create_hierarchy_edges [sample_unit ''h'' 0 0, sample_unit ''p1'' 1 1, sample_unit ''p2'' 1 2]))"
proof -
  have d: "distinct (map u_id [sample_unit ''h'' 0 0, sample_unit ''p1'' 1 1, sample_unit ''p2'' 1 2])"
    by (simp add: sample_unit_def)
  have e: "create_hierarchy_edges [sample_unit ''h'' 0 0, sample_unit ''p1'' 1 1, sample_unit ''p2'' 1 2] =
       [\<lparr>source_id = ''h'', target_id = ''p1'', edge_type = CONTAINS,
          edge_metadata = [(''hierarchy'', JBool True)]\<rparr>,
        \<lparr>source_id = ''h'', target_id = ''p2'', edge_type = CONTAINS,
          edge_metadata = [(''hierarchy'', JBool True)]\<rparr>]"
    by (simp add: create_hierarchy_edges_def sample_unit_def)
  from contains_edges_forest [OF d] d e show ?thesis by blast
qed


section \<open>Verification: BM25 search\<close>


lemma format_results_total:
  "\<forall>i \<in> set idxs. i < length (doc_ids index_data) \<and> i < length (doc_metadata index_data) \<Longrightarrow>
   \<exists>results. format_results index_data scores idxs = Inr results"
  by (induction idxs) auto

lemma py_take_is_take: "\<exists>m. py_take k xs = take m xs"
  unfolding py_take_def by auto

lemma top_indices_is_take:
  "\<exists>m. top_indices scores k = take m (sort_key (\<lambda>i. - (scores ! i)) [0..<length scores])"
  unfolding top_indices_def sorted_desc_def by (rule py_take_is_take)




text \<open>The search does return when the stored row is found, the scoring library
  returns, and the stored arrays are as long as the score list.\<close>

lemma search_returns:
  assumes "load_index s chat tenant = Inr (Some index_data)"
    and "scorer (corpus_tokens index_data) (tokenize tk qtext) = Inr scores"
    and "length scores \<le> length (doc_ids index_data)"
    and "length scores \<le> length (doc_metadata index_data)"
  shows "\<exists>results. search tk scorer s chat tenant qtext k = Inr results"
proof -
  obtain m where "top_indices scores k = take m (sort_key (\<lambda>i. - (scores ! i)) [0..<length scores])"
    using top_indices_is_take by blast
  then have "set (top_indices scores k) \<subseteq> {..<length scores}"
    using set_take_subset [of m "sort_key (\<lambda>i. - (scores ! i)) [0..<length scores]"] by auto
  with assms(3,4) have "\<forall>i \<in> set (top_indices scores k).
      i < length (doc_ids index_data) \<and> i < length (doc_metadata index_data)"
    by fastforce
  from format_results_total [OF this] obtain results where
    "format_results index_data scores (top_indices scores k) = Inr results" by blast
  with assms(1,2) show ?thesis by (simp add: search_def)
qed



section \<open>Verification: error handling of the retrieval engine\<close>

lemma fuse_two_lists: "\<exists>fused. fuse k [a, b] (Some [0.6, 0.4]) = Inr fused"
  by (simp add: fuse_def Let_def split: prod.splits)

lemma hybrid_returns: "\<exists>results. hybrid svc s chat tenant qtext k threshold = Inr results"
  using fuse_two_lists [of rrf_k "dense_retrieve svc chat tenant qtext (k * 2) threshold"
      "sparse_retrieve svc s chat tenant qtext (k * 2)"]
  by (auto simp: hybrid_def Let_def)

lemma graph_enhanced_returns: "\<exists>results. graph_enhanced svc s chat tenant request threshold = Inr results"
  using hybrid_returns [of svc s chat tenant "req_query request" "req_top_k request" threshold]
  by (auto simp: graph_enhanced_def)

lemma mode_values_distinct:
  "DENSE_ONLY \<noteq> SPARSE_ONLY" "DENSE_ONLY \<noteq> HYBRID" "DENSE_ONLY \<noteq> GRAPH_ENHANCED"
  "SPARSE_ONLY \<noteq> HYBRID" "SPARSE_ONLY \<noteq> GRAPH_ENHANCED" "HYBRID \<noteq> GRAPH_ENHANCED"
  by (simp_all add: DENSE_ONLY_def SPARSE_ONLY_def HYBRID_def GRAPH_ENHANCED_def)

lemma retrieve_body_valid_mode:
  assumes "req_mode request \<in> {DENSE_ONLY, SPARSE_ONLY, HYBRID, GRAPH_ENHANCED}"
  shows "\<exists>contexts. retrieve_body svc s chat tenant request = Inr contexts"
  using assms
    hybrid_returns [of svc s chat tenant "req_query request" "req_top_k request" "req_score_threshold request"]
    graph_enhanced_returns [of svc s chat tenant request "req_score_threshold request"]
  by (auto simp: retrieve_body_def Let_def)

lemma retrieve_body_invalid_mode:
  assumes "req_mode request \<notin> {DENSE_ONLY, SPARSE_ONLY, HYBRID, GRAPH_ENHANCED}"
  shows "retrieve_body svc s chat tenant request = Inl InvalidRetrievalModeError"
  using assms by (simp add: retrieve_body_def)

text \<open>
  Claim C1, as amended. For the four retrieval modes \<open>retrieve\<close> always returns a
  result list and leaves the session as it was; for any other mode it rolls the session
  back and raises \<open>RetrievalError\<close> wrapping \<open>InvalidRetrievalModeError\<close>. A failure
  of the BM25 search or of the vector search is absorbed by the retriever, which returns
  the empty list; a failing neighbour query is skipped by the expansion loop; and a
  session that cannot execute statements makes the enrichment return the empty list:
  none of these reaches the handler of \<open>retrieve\<close>.
\<close>

theorem retrieve_error_surface:
  "(req_mode request \<in> {DENSE_ONLY, SPARSE_ONLY, HYBRID, GRAPH_ENHANCED} \<longrightarrow>
      (\<exists>contexts. retrieve svc s chat tenant request = (Inr contexts, s)))
   \<and> (req_mode request \<notin> {DENSE_ONLY, SPARSE_ONLY, HYBRID, GRAPH_ENHANCED} \<longrightarrow>
      retrieve svc s chat tenant request =
        (Inl (RetrievalError InvalidRetrievalModeError), rollback s))
   \<and> (\<forall>e. search (svc_tokenizer svc) (svc_scorer svc) s chat tenant qtext k = Inl e \<longrightarrow>
          sparse_retrieve svc s chat tenant qtext k = [])
   \<and> (\<forall>e. svc_vector_search svc chat tenant qtext k threshold = Inl e \<longrightarrow>
          dense_retrieve svc chat tenant qtext k threshold = [])
   \<and> (\<forall>e. get_neighbors s chat tenant (atomic_unit_id result) None hops = Inl e \<longrightarrow>
          expand_loop s chat tenant hops (result # rest) (expanded, seen_ids) =
          expand_loop s chat tenant hops rest
            (if atomic_unit_id result \<notin> seen_ids
             then (expanded @ [result], insert (atomic_unit_id result) seen_ids)
             else (expanded, seen_ids)))
   \<and> (\<not> connected s \<longrightarrow> enrich_results s results = [])"
proof (intro conjI impI allI)
  assume "req_mode request \<in> {DENSE_ONLY, SPARSE_ONLY, HYBRID, GRAPH_ENHANCED}"
  then obtain contexts where "retrieve_body svc s chat tenant request = Inr contexts"
    using retrieve_body_valid_mode by blast
  then show "\<exists>contexts. retrieve svc s chat tenant request = (Inr contexts, s)"
    by (simp add: retrieve_def)
next
  assume "req_mode request \<notin> {DENSE_ONLY, SPARSE_ONLY, HYBRID, GRAPH_ENHANCED}"
  then show "retrieve svc s chat tenant request =
        (Inl (RetrievalError InvalidRetrievalModeError), rollback s)"
    by (simp add: retrieve_def retrieve_body_invalid_mode)
next
  fix e assume "search (svc_tokenizer svc) (svc_scorer svc) s chat tenant qtext k = Inl e"
  then show "sparse_retrieve svc s chat tenant qtext k = []" by (simp add: sparse_retrieve_def)
next
  fix e assume "svc_vector_search svc chat tenant qtext k threshold = Inl e"
  then show "dense_retrieve svc chat tenant qtext k threshold = []" by (simp add: dense_retrieve_def)
next
  fix e assume "get_neighbors s chat tenant (atomic_unit_id result) None hops = Inl e"
  then show "expand_loop s chat tenant hops (result # rest) (expanded, seen_ids) =
          expand_loop s chat tenant hops rest
            (if atomic_unit_id result \<notin> seen_ids
             then (expanded @ [result], insert (atomic_unit_id result) seen_ids)
             else (expanded, seen_ids))"
    by (simp add: Let_def)
next
  assume "\<not> connected s"
  then show "enrich_results s results = []"
    by (simp add: enrich_results_def execute_select_def Let_def)
qed

text \<open>
  Claim C1 as stated fails where a component fails. With no sparse index stored for the
  collection the BM25 search raises \<open>BM25IndexNotFoundError\<close>, and \<open>retrieve\<close> in
  sparse mode returns the empty list as a successful result, without a rollback.
\<close>

theorem retrieve_swallows_missing_index:
  "search plain_tokenizer overlap_scorer empty_session ''chat-1'' ''tenant-a''
     (ascii ''payment terms'') 10 = Inl BM25IndexNotFoundError
   \<and> retrieve sample_services empty_session ''chat-1'' ''tenant-a''
       (sparse_request (ascii ''payment terms'') 10) = (Inr [], empty_session)"
  by code_simp

theorem retrieve_error_surface_witness:
  "retrieve sample_services empty_session ''chat-1'' ''tenant-a''
     ((sparse_request (ascii ''payment terms'') 10)\<lparr>req_mode := ''semantic''\<rparr>)
   = (Inl (RetrievalError InvalidRetrievalModeError), rollback empty_session)
   \<and> rollbacks (rollback empty_session) = 1"
proof -
  have m: "req_mode ((sparse_request (ascii ''payment terms'') 10)\<lparr>req_mode := ''semantic''\<rparr>)
           \<notin> {DENSE_ONLY, SPARSE_ONLY, HYBRID, GRAPH_ENHANCED}"
    by (simp add: DENSE_ONLY_def SPARSE_ONLY_def HYBRID_def GRAPH_ENHANCED_def)
  have r: "rollbacks (rollback empty_session) = 1" by (simp add: rollback_def empty_session_def)
  from retrieve_error_surface [of "(sparse_request (ascii ''payment terms'') 10)\<lparr>req_mode := ''semantic''\<rparr>"
      sample_services empty_session "''chat-1''" "''tenant-a''"] m r
  show ?thesis by blast
qed

section \<open>Verification: tenant isolation\<close>

text \<open>The index and the graph are read by tenant and chat.\<close>

lemma scalar_one_or_none_member: "scalar_one_or_none rows = Inr (Some r) \<Longrightarrow> r \<in> set rows"
  by (auto simp: scalar_one_or_none_def split: list.splits)

lemma load_index_keyed:
  "load_index s chat tenant = Inr (Some r) \<Longrightarrow> bi_chat_id r = chat \<and> bi_tenant_id r = tenant"
  by (auto simp: load_index_def execute_select_def split: if_splits dest: scalar_one_or_none_member)

lemma load_graph_keyed:
  "load_graph s chat tenant = Inr (Some g) \<Longrightarrow> dg_chat_id g = chat \<and> dg_tenant_id g = tenant"
  by (auto simp: load_graph_def execute_select_def split: if_splits dest: scalar_one_or_none_member)



section \<open>Verification: neighbour query of the graph store\<close>

lemma fresh_neighbors_Nil [simp]: "fresh_neighbors graph hop [] []"
  by (simp add: fresh_neighbors_def)

lemma fresh_neighbors_append:
  "fresh_neighbors graph hop l1 ns1 \<Longrightarrow> fresh_neighbors graph hop l2 ns2 \<Longrightarrow>
   fresh_neighbors graph hop (l1 @ l2) (ns1 @ ns2)"
  by (auto simp: fresh_neighbors_def)

lemma scan_edges_result:
  "\<exists>l ns. scan_edges graph etype hop cur es (V, L, N) = (V \<union> set l, L @ l, N @ ns)
     \<and> set l = target_id ` {e. e \<in> set es \<and> source_id e = cur \<and> edge_matches etype e} - V
     \<and> distinct l \<and> fresh_neighbors graph hop l ns"
proof (induction es arbitrary: V L N)
  case Nil
  have "scan_edges graph etype hop cur [] (V, L, N) = (V \<union> set [], L @ [], N @ [])" by simp
  then show ?case by (intro exI [of _ "[]"]) auto
next
  case (Cons e es)
  let ?T = "\<lambda>es. target_id ` {e. e \<in> set es \<and> source_id e = cur \<and> edge_matches etype e}"
  show ?case
  proof (cases "source_id e = cur \<and> edge_matches etype e \<and> target_id e \<notin> V")
    case False
    then have step: "scan_edges graph etype hop cur (e # es) (V, L, N) =
                     scan_edges graph etype hop cur es (V, L, N)"
      by (auto simp: edge_matches_def)
    from Cons.IH [of V L N] obtain l ns where
      r: "scan_edges graph etype hop cur es (V, L, N) = (V \<union> set l, L @ l, N @ ns)"
      and l: "set l = ?T es - V" "distinct l" "fresh_neighbors graph hop l ns"
      by blast
    have "?T (e # es) - V = ?T es - V" using False by auto
    with step r l show ?thesis by auto
  next
    case True
    define t where "t = target_id e"
    define ns0 where "ns0 = (case nodes_of graph t of
        Some n \<Rightarrow> [\<lparr>node = n, edge = e, distance = hop + 1\<rparr>] | None \<Rightarrow> [])"
    have step: "scan_edges graph etype hop cur (e # es) (V, L, N) =
                scan_edges graph etype hop cur es (insert t V, L @ [t], N @ ns0)"
      using True by (auto simp: edge_matches_def t_def ns0_def split: option.splits)
    from Cons.IH [of "insert t V" "L @ [t]" "N @ ns0"] obtain l ns where
      r: "scan_edges graph etype hop cur es (insert t V, L @ [t], N @ ns0) =
          (insert t V \<union> set l, (L @ [t]) @ l, (N @ ns0) @ ns)"
      and l: "set l = ?T es - insert t V" "distinct l" "fresh_neighbors graph hop l ns"
      by blast
    have f0: "fresh_neighbors graph hop [t] ns0"
      by (auto simp: fresh_neighbors_def ns0_def tgt_def t_def dom_def split: option.splits)
    have "scan_edges graph etype hop cur (e # es) (V, L, N) =
            (V \<union> set (t # l), L @ (t # l), N @ (ns0 @ ns))"
      using step r by simp
    moreover have "set (t # l) = ?T (e # es) - V" using l(1) True by (auto simp: t_def)
    moreover have "distinct (t # l)" using l(1,2) by auto
    moreover have "fresh_neighbors graph hop (t # l) (ns0 @ ns)"
      using fresh_neighbors_append [OF f0 l(3)] by simp
    ultimately show ?thesis by blast
  qed
qed

lemma successors_insert:
  "successors graph etype (insert c S) =
   target_id ` {e. e \<in> set (edges graph) \<and> source_id e = c \<and> edge_matches etype e}
   \<union> successors graph etype S"
  by (auto simp: successors_def)

lemma scan_layer_result:
  "\<exists>l ns. scan_layer graph etype hop cs (V, L, N) = (V \<union> set l, L @ l, N @ ns)
     \<and> set l = successors graph etype (set cs) - V
     \<and> distinct l \<and> fresh_neighbors graph hop l ns"
proof (induction cs arbitrary: V L N)
  case Nil
  have "scan_layer graph etype hop [] (V, L, N) = (V \<union> set [], L @ [], N @ [])" by simp
  moreover have "successors graph etype (set []) = {}" by (simp add: successors_def)
  ultimately show ?case by (intro exI [of _ "[]"]) auto
next
  case (Cons c cs)
  from scan_edges_result [of graph etype hop c "edges graph" V L N] obtain l1 ns1 where
    r1: "scan_edges graph etype hop c (edges graph) (V, L, N) = (V \<union> set l1, L @ l1, N @ ns1)"
    and l1: "set l1 = target_id ` {e. e \<in> set (edges graph) \<and> source_id e = c \<and> edge_matches etype e} - V"
      "distinct l1" "fresh_neighbors graph hop l1 ns1"
    by blast
  from Cons.IH [of "V \<union> set l1" "L @ l1" "N @ ns1"] obtain l2 ns2 where
    r2: "scan_layer graph etype hop cs (V \<union> set l1, L @ l1, N @ ns1) =
         ((V \<union> set l1) \<union> set l2, (L @ l1) @ l2, (N @ ns1) @ ns2)"
    and l2: "set l2 = successors graph etype (set cs) - (V \<union> set l1)"
      "distinct l2" "fresh_neighbors graph hop l2 ns2"
    by blast
  have "scan_layer graph etype hop (c # cs) (V, L, N) =
          (V \<union> set (l1 @ l2), L @ (l1 @ l2), N @ (ns1 @ ns2))"
    using r1 r2 by (simp add: Un_assoc)
  moreover have "set (l1 @ l2) = successors graph etype (set (c # cs)) - V"
    using l1(1) l2(1) by (auto simp: successors_insert)
  moreover have "distinct (l1 @ l2)" using l1(2) l2(1,2) by auto
  moreover have "fresh_neighbors graph hop (l1 @ l2) (ns1 @ ns2)"
    using l1(3) l2(3) by (rule fresh_neighbors_append)
  ultimately show ?case by blast
qed

lemma start_visited: "start \<in> snd (spec_round graph etype start r)"
  by (induction r) (auto split: prod.splits)

lemma frontier_visited:
  "fst (spec_round graph etype start r) \<subseteq> snd (spec_round graph etype start r)"
  by (cases r) (auto split: prod.splits)

lemma visited_mono:
  "r \<le> r' \<Longrightarrow> snd (spec_round graph etype start r) \<subseteq> snd (spec_round graph etype start r')"
proof (induction r')
  case 0
  then show ?case by simp
next
  case (Suc r')
  show ?case
  proof (cases "r = Suc r'")
    case True
    then show ?thesis by simp
  next
    case False
    with Suc.prems have "r \<le> r'" by simp
    with Suc.IH have "snd (spec_round graph etype start r) \<subseteq> snd (spec_round graph etype start r')"
      by simp
    then show ?thesis by (auto split: prod.splits)
  qed
qed

lemma frontier_new:
  "fst (spec_round graph etype start (Suc r)) \<inter> snd (spec_round graph etype start r) = {}"
  by (auto split: prod.splits)

lemma discovered_once:
  assumes "t \<in> discovered_in graph etype start r" "t \<in> discovered_in graph etype start r'"
  shows "r = r'"
proof -
  have less: "False" if "a < b" "t \<in> discovered_in graph etype start a"
    "t \<in> discovered_in graph etype start b" for a b
  proof -
    from that(1) obtain c where b: "b = Suc c" and ac: "a \<le> c" by (cases b) auto
    have "t \<in> snd (spec_round graph etype start a)"
      using that(2) frontier_visited [of graph etype start a] by (auto simp: discovered_in_def)
    then have "t \<in> snd (spec_round graph etype start c)"
      using visited_mono [OF ac, of graph etype start] by auto
    moreover have "t \<in> fst (spec_round graph etype start (Suc c))"
      using that(3) b by (simp add: discovered_in_def)
    ultimately show False using frontier_new [of graph etype start c] by auto
  qed
  show ?thesis
  proof (rule ccontr)
    assume "r \<noteq> r'"
    then consider "r < r'" | "r' < r" by linarith
    then show False using less assms by cases blast+
  qed
qed

lemma bfs_inv_step:
  assumes inv: "bfs_inv graph etype start r L V N"
    and scan: "scan_layer graph etype r L (V, [], N) = (V', L', N')"
  shows "bfs_inv graph etype start (Suc r) L' V' N'"
proof -
  from scan_layer_result [of graph etype r L V "[]" N] scan obtain l ns where
    V': "V' = V \<union> set l" and L': "L' = l" and N': "N' = N @ ns"
    and l: "set l = successors graph etype (set L) - V" "distinct l"
    and ns: "fresh_neighbors graph r l ns"
    by auto
  from inv have L: "set L = fst (spec_round graph etype start r)"
    and V: "V = snd (spec_round graph etype start r)"
    and dN: "distinct (map tgt N)" and sN: "set (map tgt N) \<subseteq> V - {start}"
    and pN: "\<forall>x \<in> set N. 1 \<le> distance x \<and> distance x \<le> r
            \<and> tgt x \<in> discovered_in graph etype start (distance x)
            \<and> nodes_of graph (tgt x) = Some (node x)"
    and cN: "\<forall>r' t. 1 \<le> r' \<and> r' \<le> r \<and> t \<in> discovered_in graph etype start r'
            \<and> t \<in> dom (nodes_of graph) \<longrightarrow> (\<exists>x \<in> set N. tgt x = t \<and> distance x = r')"
    by (auto simp: bfs_inv_def)
  have fr: "set l = fst (spec_round graph etype start (Suc r))"
    using l(1) L V by (auto split: prod.splits)
  have vs: "V' = snd (spec_round graph etype start (Suc r))"
    using V' l(1) L V by (auto split: prod.splits)
  have tns: "map tgt ns = filter (\<lambda>t. t \<in> dom (nodes_of graph)) l"
    and pns: "\<forall>x \<in> set ns. distance x = Suc r \<and> nodes_of graph (tgt x) = Some (node x)"
    using ns by (auto simp: fresh_neighbors_def)
  have sub: "set (map tgt ns) \<subseteq> set l" using tns by auto
  have disj: "set l \<inter> V = {}" using l(1) by auto
  have sV: "start \<in> V" using V start_visited by simp
  have d: "distinct (map tgt N')"
    using dN l(2) sN sub disj by (auto simp: N' tns)
  have s: "set (map tgt N') \<subseteq> V' - {start}"
    using sN sub disj sV by (auto simp: N' V')
  have p: "\<forall>x \<in> set N'. 1 \<le> distance x \<and> distance x \<le> Suc r
            \<and> tgt x \<in> discovered_in graph etype start (distance x)
            \<and> nodes_of graph (tgt x) = Some (node x)"
  proof
    fix x assume "x \<in> set N'"
    then consider "x \<in> set N" | "x \<in> set ns" by (auto simp: N')
    then show "1 \<le> distance x \<and> distance x \<le> Suc r
            \<and> tgt x \<in> discovered_in graph etype start (distance x)
            \<and> nodes_of graph (tgt x) = Some (node x)"
    proof cases
      case 1
      with pN show ?thesis by auto
    next
      case 2
      then have "tgt x \<in> set l" using sub by auto
      with 2 pns fr show ?thesis by (auto simp: discovered_in_def)
    qed
  qed
  have c: "\<forall>r' t. 1 \<le> r' \<and> r' \<le> Suc r \<and> t \<in> discovered_in graph etype start r'
            \<and> t \<in> dom (nodes_of graph) \<longrightarrow> (\<exists>x \<in> set N'. tgt x = t \<and> distance x = r')"
  proof (intro allI impI)
    fix r' t
    assume a: "1 \<le> r' \<and> r' \<le> Suc r \<and> t \<in> discovered_in graph etype start r'
            \<and> t \<in> dom (nodes_of graph)"
    show "\<exists>x \<in> set N'. tgt x = t \<and> distance x = r'"
    proof (cases "r' = Suc r")
      case False
      with a have "1 \<le> r' \<and> r' \<le> r \<and> t \<in> discovered_in graph etype start r'
            \<and> t \<in> dom (nodes_of graph)" by simp
      from cN [rule_format, OF this]
      obtain x where "x \<in> set N" "tgt x = t" "distance x = r'" by blast
      then show ?thesis by (auto simp: N')
    next
      case True
      with a fr have "t \<in> set (filter (\<lambda>t. t \<in> dom (nodes_of graph)) l)"
        by (auto simp: discovered_in_def)
      then have "t \<in> set (map tgt ns)" using tns by simp
      then obtain x where "x \<in> set ns" "tgt x = t" by auto
      with pns True show ?thesis by (auto simp: N')
    qed
  qed
  from fr vs d s p c show ?thesis by (simp add: bfs_inv_def L')
qed

lemma hop_loop_inv:
  "bfs_inv graph etype start r L V N \<Longrightarrow>
   \<exists>L' V'. bfs_inv graph etype start (r + n) L' V' (hop_loop graph etype r n L V N)"
proof (induction n arbitrary: r L V N)
  case 0
  then show ?case by auto
next
  case (Suc n)
  obtain V' L' N' where scan: "scan_layer graph etype r L (V, [], N) = (V', L', N')"
    by (cases "scan_layer graph etype r L (V, [], N)") auto
  from bfs_inv_step [OF Suc.prems scan] have "bfs_inv graph etype start (Suc r) L' V' N'" .
  from Suc.IH [OF this] scan show ?case by simp
qed

text \<open>
  Claim C7. Whenever the neighbour query returns, for any stored state, start node,
  optional edge type and hop count: no returned tuple is for the start node (the target
  id of its edge differs from the start id); each tuple carries the node stored under
  the target of its edge; its distance is at least 1 and
  at most the hop count; the target was discovered in the round of the specification
  whose number is the distance, and in no other round. No node is returned twice, and
  every node with stored data discovered in a round up to the hop count is returned with
  that round as its distance.
\<close>

theorem get_neighbors_bfs:
  assumes "get_neighbors s chat tenant start etype hops = Inr result"
  shows "\<exists>graph. load_graph s chat tenant = Inr (Some graph)
     \<and> (\<forall>x \<in> set result.
            target_id (edge x) \<noteq> start
          \<and> nodes_of graph (target_id (edge x)) = Some (node x)
          \<and> 1 \<le> distance x \<and> int (distance x) \<le> hops
          \<and> target_id (edge x) \<in> discovered_in graph etype start (distance x)
          \<and> (\<forall>r. target_id (edge x) \<in> discovered_in graph etype start r \<longrightarrow> r = distance x))
     \<and> distinct (map (\<lambda>x. target_id (edge x)) result)
     \<and> (\<forall>r t. 1 \<le> r \<and> int r \<le> hops \<and> t \<in> discovered_in graph etype start r
              \<and> t \<in> dom (nodes_of graph) \<longrightarrow>
            (\<exists>x \<in> set result. target_id (edge x) = t \<and> distance x = r))"
proof -
  from assms obtain graph where
    lg: "load_graph s chat tenant = Inr (Some graph)" and
    res: "result = hop_loop graph etype 0 (nat hops) [start] {start} []"
    by (auto simp: get_neighbors_def split: sum.splits option.splits)
  have "bfs_inv graph etype start 0 [start] {start} []"
    by (simp add: bfs_inv_def)
  from hop_loop_inv [OF this, of "nat hops"] obtain L' V' where
    inv: "bfs_inv graph etype start (nat hops) L' V' result"
    by (auto simp: res)
  have d: "distinct (map tgt result)" and s: "set (map tgt result) \<subseteq> V' - {start}"
    and p: "\<forall>x \<in> set result. 1 \<le> distance x \<and> distance x \<le> nat hops
            \<and> tgt x \<in> discovered_in graph etype start (distance x)
            \<and> nodes_of graph (tgt x) = Some (node x)"
    and c: "\<forall>r' t. 1 \<le> r' \<and> r' \<le> nat hops \<and> t \<in> discovered_in graph etype start r'
            \<and> t \<in> dom (nodes_of graph) \<longrightarrow> (\<exists>x \<in> set result. tgt x = t \<and> distance x = r')"
    using inv unfolding bfs_inv_def by blast+
  have a: "\<forall>x \<in> set result.
            target_id (edge x) \<noteq> start
          \<and> nodes_of graph (target_id (edge x)) = Some (node x)
          \<and> 1 \<le> distance x \<and> int (distance x) \<le> hops
          \<and> target_id (edge x) \<in> discovered_in graph etype start (distance x)
          \<and> (\<forall>r. target_id (edge x) \<in> discovered_in graph etype start r \<longrightarrow> r = distance x)"
  proof
    fix x assume x: "x \<in> set result"
    with s have n1: "target_id (edge x) \<noteq> start" by (auto simp: tgt_def)
    from x p have px: "1 \<le> distance x" "distance x \<le> nat hops"
      "target_id (edge x) \<in> discovered_in graph etype start (distance x)"
      "nodes_of graph (target_id (edge x)) = Some (node x)" by (auto simp: tgt_def)
    have n2: "int (distance x) \<le> hops" using px(1,2) by linarith
    have n3: "\<forall>r. target_id (edge x) \<in> discovered_in graph etype start r \<longrightarrow> r = distance x"
      using discovered_once [OF _ px(3)] by blast
    show "target_id (edge x) \<noteq> start
          \<and> nodes_of graph (target_id (edge x)) = Some (node x)
          \<and> 1 \<le> distance x \<and> int (distance x) \<le> hops
          \<and> target_id (edge x) \<in> discovered_in graph etype start (distance x)
          \<and> (\<forall>r. target_id (edge x) \<in> discovered_in graph etype start r \<longrightarrow> r = distance x)"
      by (intro conjI n1 n2 n3 px)
  qed
  have b: "distinct (map (\<lambda>x. target_id (edge x)) result)"
    using d by (simp add: tgt_def [abs_def])
  have e: "\<forall>r t. 1 \<le> r \<and> int r \<le> hops \<and> t \<in> discovered_in graph etype start r
              \<and> t \<in> dom (nodes_of graph) \<longrightarrow>
            (\<exists>x \<in> set result. target_id (edge x) = t \<and> distance x = r)"
  proof (intro allI impI)
    fix r t
    assume h: "1 \<le> r \<and> int r \<le> hops \<and> t \<in> discovered_in graph etype start r
              \<and> t \<in> dom (nodes_of graph)"
    then have "1 \<le> r \<and> r \<le> nat hops \<and> t \<in> discovered_in graph etype start r
              \<and> t \<in> dom (nodes_of graph)" by linarith
    from c [rule_format, OF this]
    obtain x where "x \<in> set result" "tgt x = t" "distance x = r" by blast
    then show "\<exists>x \<in> set result. target_id (edge x) = t \<and> distance x = r"
      by (auto simp: tgt_def)
  qed
  show ?thesis
    by (rule exI [of _ graph]) (intro conjI lg a b e)
qed

text \<open>The query returns whenever the graph of the collection is stored.\<close>

lemma get_neighbors_returns:
  "load_graph s chat tenant = Inr (Some graph) \<Longrightarrow>
   \<exists>result. get_neighbors s chat tenant start etype hops = Inr result"
  by (simp add: get_neighbors_def)

theorem get_neighbors_bfs_witness:
  "get_neighbors graph_session ''chat-1'' ''tenant-a'' ''a'' None 2 =
     Inr [\<lparr>node = sample_node ''b'' 1 1, edge = sample_edge ''a'' ''b'' NEXT, distance = 1\<rparr>,
          \<lparr>node = sample_node ''c'' 1 2, edge = sample_edge ''a'' ''c'' CONTAINS, distance = 1\<rparr>,
          \<lparr>node = sample_node ''d'' 1 3, edge = sample_edge ''c'' ''d'' NEXT, distance = 2\<rparr>]
   \<and> distinct (map (\<lambda>x. target_id (edge x))
        [\<lparr>node = sample_node ''b'' 1 1, edge = sample_edge ''a'' ''b'' NEXT, distance = 1\<rparr>,
         \<lparr>node = sample_node ''c'' 1 2, edge = sample_edge ''a'' ''c'' CONTAINS, distance = 1\<rparr>,
         \<lparr>node = sample_node ''d'' 1 3, edge = sample_edge ''c'' ''d'' NEXT, distance = 2\<rparr>])"
proof -
  have ev: "get_neighbors graph_session ''chat-1'' ''tenant-a'' ''a'' None 2 =
     Inr [\<lparr>node = sample_node ''b'' 1 1, edge = sample_edge ''a'' ''b'' NEXT, distance = 1\<rparr>,
          \<lparr>node = sample_node ''c'' 1 2, edge = sample_edge ''a'' ''c'' CONTAINS, distance = 1\<rparr>,
          \<lparr>node = sample_node ''d'' 1 3, edge = sample_edge ''c'' ''d'' NEXT, distance = 2\<rparr>]"
    by code_simp
  from get_neighbors_bfs [OF ev] ev show ?thesis by blast
qed


section \<open>Verification: tokenizer\<close>



























end
